theory Spec2Isabelle
  imports Main "HOL-Library.Sublist"
begin

section \<open>Syntax trees\<close>

text \<open>
  The transformer works on TypeScript syntax trees. Only the node kinds that some branch of
  \<^verbatim>\<open>src/index.ts\<close> tests for or builds have a constructor of their own; every other kind is
  an \<open>OtherNode\<close> (or, when \<^verbatim>\<open>ts.isFunctionLike\<close> holds of it, a \<open>FunctionLikeNode\<close>) that
  carries its kind and its children. Names are kept as their source text. A type node is a
  leaf, and so is a parameter, which is kept with its name and its type; default values,
  parameter decorators, type parameters and type arguments, which no branch of the
  transformer reads or builds, are left out.
\<close>

datatype typeNode = TypeReferenceNode string | OtherTypeNode string

datatype parameterDeclaration = ParameterDeclaration string "typeNode option"

datatype propertyName = IdentifierName string | OtherName string

datatype node =
    Identifier string
  | GeneratedIdentifier string
  | StringLiteral string
  | PropertyAccessExpression node string
  | CallExpression node "node list"
  | AwaitExpression node
  | YieldExpression bool node
  | ArrowFunction "modifierLike list" "parameterDeclaration list" "typeNode option" node
  | FunctionExpression "modifierLike list" bool "string option"
      "parameterDeclaration list" "typeNode option" node
  | PropertyDeclaration "modifierLike list" propertyName bool "typeNode option" "node option"
  | MethodDeclaration "modifierLike list" bool propertyName bool
      "parameterDeclaration list" "typeNode option" "node option"
  | ClassDeclaration "modifierLike list" "string option" "node list" "node list"
  | ImportDeclaration node node
  | FunctionLikeNode string "node list"
  | OtherNode string "node list"
and modifierLike =
    Decorator node
  | AsyncKeyword
  | OtherModifier string

record sourceFile =
  fileName :: string
  statements :: "node list"

record options =
  mobxKeystonePackage :: "string option"
  generateModelNameFromFilename :: "(string \<Rightarrow> string) option"

datatype error =
    CouldNotResolveAsyncFunction
  | CouldNotResolvePropertyDeclaration
  | TypeError

section \<open>Node tests and strings\<close>

definition autoFlow :: string where
  "autoFlow = ''autoFlow''"

definition modelFlow :: string where
  "modelFlow = ''modelFlow''"

text \<open>\<^verbatim>\<open>s.includes(sub)\<close>: \<open>sub\<close> occurs in \<open>s\<close> as a contiguous run of characters.\<close>

fun includes_str :: "string \<Rightarrow> string \<Rightarrow> bool" where
  "includes_str [] sub = (sub = [])"
| "includes_str (c # s) sub = (prefix sub (c # s) \<or> includes_str s sub)"

text \<open>\<^verbatim>\<open>s.startsWith(p)\<close>.\<close>

definition startsWith :: "string \<Rightarrow> string \<Rightarrow> bool" where
  "startsWith s p = prefix p s"

text \<open>\<^verbatim>\<open>ts.isIdentifier(n) ? n.text : undefined\<close>; a generated name is an identifier too.\<close>

fun identifierText :: "node \<Rightarrow> string option" where
  "identifierText (Identifier s) = Some s"
| "identifierText (GeneratedIdentifier s) = Some s"
| "identifierText _ = None"

fun isArrowFunction :: "node \<Rightarrow> bool" where
  "isArrowFunction (ArrowFunction _ _ _ _) = True"
| "isArrowFunction _ = False"

fun isFunctionExpression :: "node \<Rightarrow> bool" where
  "isFunctionExpression (FunctionExpression _ _ _ _ _ _) = True"
| "isFunctionExpression _ = False"

fun isPropertyDeclaration :: "node \<Rightarrow> bool" where
  "isPropertyDeclaration (PropertyDeclaration _ _ _ _ _) = True"
| "isPropertyDeclaration _ = False"

fun isFunctionLike :: "node \<Rightarrow> bool" where
  "isFunctionLike (ArrowFunction _ _ _ _) = True"
| "isFunctionLike (FunctionExpression _ _ _ _ _ _) = True"
| "isFunctionLike (MethodDeclaration _ _ _ _ _ _ _) = True"
| "isFunctionLike (FunctionLikeNode _ _) = True"
| "isFunctionLike _ = False"

fun nameText :: "propertyName \<Rightarrow> string" where
  "nameText (IdentifierName s) = s"
| "nameText (OtherName s) = s"

fun parameterName :: "parameterDeclaration \<Rightarrow> string" where
  "parameterName (ParameterDeclaration n _) = n"

text \<open>
  \<^verbatim>\<open>ts.isAsyncFunction\<close>: a function with a body, no asterisk token and the \<open>async\<close>
  modifier. An arrow function has no asterisk token and always has a body. The host is
  taken to provide the function, so the wrapper's throw for its absence has no branch here.
\<close>

fun isAsyncFunction :: "node \<Rightarrow> bool" where
  "isAsyncFunction (ArrowFunction mods _ _ _) = (AsyncKeyword \<in> set mods)"
| "isAsyncFunction (FunctionExpression mods asterisk _ _ _ _) =
     (\<not> asterisk \<and> AsyncKeyword \<in> set mods)"
| "isAsyncFunction (MethodDeclaration mods asterisk _ _ _ _ body) =
     (body \<noteq> None \<and> \<not> asterisk \<and> AsyncKeyword \<in> set mods)"
| "isAsyncFunction _ = False"

section \<open>Decorators\<close>

fun isSpecificDecorator :: "modifierLike \<Rightarrow> string \<Rightarrow> bool" where
  "isSpecificDecorator (Decorator e) name = (identifierText e = Some name)"
| "isSpecificDecorator _ name = False"

definition hasDecorator :: "modifierLike list \<Rightarrow> string \<Rightarrow> bool" where
  "hasDecorator decorators name =
     (length (filter (\<lambda>x. isSpecificDecorator x name) decorators) \<noteq> 0)"

text \<open>
  \<open>ensureDecorators\<close>: the reduce drops the \<open>async\<close> keyword and every \<open>@autoFlow\<close> decorator
  and keeps the rest in order; then the decorator of \<open>modelFlowExpression\<close> is put in front
  unless a decorator named \<open>modelFlow\<close> is among the kept ones.
\<close>

definition ensureDecorators_step :: "modifierLike list \<Rightarrow> modifierLike \<Rightarrow> modifierLike list" where
  "ensureDecorators_step acc x =
     (if x = AsyncKeyword then acc
      else if isSpecificDecorator x autoFlow then acc
      else acc @ [x])"

definition ensureDecorators :: "modifierLike list \<Rightarrow> node \<Rightarrow> modifierLike list" where
  "ensureDecorators modifiers modelFlowExpression =
     (let res = foldl ensureDecorators_step [] modifiers in
      if \<not> hasDecorator res modelFlow then Decorator modelFlowExpression # res else res)"

section \<open>The suspension rewriter\<close>

text \<open>
  \<open>replaceYieldAndCheckNested\<close>, the visitor inside \<open>createNewFunctionBlock\<close>: an await
  expression becomes \<open>yield* _awaitExpression(operand)\<close> with the operand as it stands, a
  function-like node is returned as it is, and every other node is rebuilt from its visited
  children (\<^verbatim>\<open>ts.visitEachChild\<close>).
\<close>

fun replaceYieldAndCheckNested :: "node \<Rightarrow> node \<Rightarrow> node"
  and replaceYieldAndCheckNested_modifier :: "node \<Rightarrow> modifierLike \<Rightarrow> modifierLike" where
  "replaceYieldAndCheckNested aw (AwaitExpression e) =
     YieldExpression True (CallExpression aw [e])"
| "replaceYieldAndCheckNested aw (ArrowFunction mods ps ty body) =
     ArrowFunction mods ps ty body"
| "replaceYieldAndCheckNested aw (FunctionExpression mods ast name ps ty body) =
     FunctionExpression mods ast name ps ty body"
| "replaceYieldAndCheckNested aw (MethodDeclaration mods ast name q ps ty body) =
     MethodDeclaration mods ast name q ps ty body"
| "replaceYieldAndCheckNested aw (FunctionLikeNode kind children) =
     FunctionLikeNode kind children"
| "replaceYieldAndCheckNested aw (Identifier s) = Identifier s"
| "replaceYieldAndCheckNested aw (GeneratedIdentifier s) = GeneratedIdentifier s"
| "replaceYieldAndCheckNested aw (StringLiteral s) = StringLiteral s"
| "replaceYieldAndCheckNested aw (PropertyAccessExpression e name) =
     PropertyAccessExpression (replaceYieldAndCheckNested aw e) name"
| "replaceYieldAndCheckNested aw (CallExpression f args) =
     CallExpression (replaceYieldAndCheckNested aw f) (map (replaceYieldAndCheckNested aw) args)"
| "replaceYieldAndCheckNested aw (YieldExpression ast e) =
     YieldExpression ast (replaceYieldAndCheckNested aw e)"
| "replaceYieldAndCheckNested aw (PropertyDeclaration mods name q ty init) =
     PropertyDeclaration (map (replaceYieldAndCheckNested_modifier aw) mods) name q ty
       (map_option (replaceYieldAndCheckNested aw) init)"
| "replaceYieldAndCheckNested aw (ClassDeclaration mods name heritage members) =
     ClassDeclaration (map (replaceYieldAndCheckNested_modifier aw) mods) name
       (map (replaceYieldAndCheckNested aw) heritage)
       (map (replaceYieldAndCheckNested aw) members)"
| "replaceYieldAndCheckNested aw (ImportDeclaration binding specifier) =
     ImportDeclaration (replaceYieldAndCheckNested aw binding)
       (replaceYieldAndCheckNested aw specifier)"
| "replaceYieldAndCheckNested aw (OtherNode kind children) =
     OtherNode kind (map (replaceYieldAndCheckNested aw) children)"
| "replaceYieldAndCheckNested_modifier aw (Decorator e) =
     Decorator (replaceYieldAndCheckNested aw e)"
| "replaceYieldAndCheckNested_modifier aw AsyncKeyword = AsyncKeyword"
| "replaceYieldAndCheckNested_modifier aw (OtherModifier s) = OtherModifier s"

text \<open>
  \<open>createNewFunctionBlock\<close> rewrites the body and keeps every other part of the function.
  Its parameter type admits arrow functions and function expressions only.
\<close>

fun createNewFunctionBlock :: "node \<Rightarrow> node \<Rightarrow> node" where
  "createNewFunctionBlock (ArrowFunction mods ps ty body) aw =
     ArrowFunction mods ps ty (replaceYieldAndCheckNested aw body)"
| "createNewFunctionBlock (FunctionExpression mods ast name ps ty body) aw =
     FunctionExpression mods ast name ps ty (replaceYieldAndCheckNested aw body)"
| "createNewFunctionBlock fn aw = fn"

section \<open>The function wrapper and the property update\<close>

fun functionParts :: "node \<Rightarrow> (parameterDeclaration list \<times> node) option" where
  "functionParts (ArrowFunction mods ps ty body) = Some (ps, body)"
| "functionParts (FunctionExpression mods ast name ps ty body) = Some (ps, body)"
| "functionParts _ = None"

text \<open>
  \<open>transformFunction\<close> throws unless the function is async; the error value stands for
  whatever that throw statement raises, the message included (building the message reads
  the function's text, which fails in its own way on a node that is not from the file).
  Otherwise it builds the call
  \<open>asyncIdentifier(function* (params) body)\<close>, the parameters being the function's own,
  preceded by \<open>this: className\<close> unless one of them is already named \<open>this\<close>. Its
  parameter type admits arrow functions and function expressions only; reading the
  parameters of anything else is a TypeError.
\<close>

definition transformFunction :: "node \<Rightarrow> node \<Rightarrow> string \<Rightarrow> error + node" where
  "transformFunction fn asyncIdentifier className =
     (if \<not> isAsyncFunction fn then Inl CouldNotResolveAsyncFunction
      else case functionParts fn of
        None \<Rightarrow> Inl TypeError
      | Some (parameters, body) \<Rightarrow>
          (let hasThisParam = find (\<lambda>x. parameterName x = ''this'') parameters;
               additionalParams =
                 (if hasThisParam \<noteq> None then []
                  else [ParameterDeclaration ''this'' (Some (TypeReferenceNode className))])
           in Inr (CallExpression asyncIdentifier
                [FunctionExpression [] True None (additionalParams @ parameters) None body])))"

fun transformPropertyDeclaration :: "node \<Rightarrow> node option \<Rightarrow> node \<Rightarrow> node" where
  "transformPropertyDeclaration (PropertyDeclaration mods name q ty init)
       newFunctionBlock modelFlowExpression =
     PropertyDeclaration (ensureDecorators mods modelFlowExpression) name q ty newFunctionBlock"
| "transformPropertyDeclaration node newFunctionBlock modelFlowExpression = node"

section \<open>The pass over one source file\<close>

text \<open>
  What \<open>visitSourceFile\<close> keeps in local variables while it visits: the \<open>transformed\<close>
  flag, the name of the class last entered and the names of the properties marked for a
  decorator.
\<close>

record state =
  transformed :: bool
  className :: string
  functionsToAddDecoratorsTo :: "string list"

datatype outcome = Done node state | Descend node state

definition mobxNamespaceImport :: node where
  "mobxNamespaceImport = GeneratedIdentifier ''mobxKs''"

definition createMobxKsPropertyAccessExpression :: "node \<Rightarrow> string \<Rightarrow> node" where
  "createMobxKsPropertyAccessExpression mobxKsNamespaceImport name =
     PropertyAccessExpression mobxKsNamespaceImport name"

definition asyncExpression :: node where
  "asyncExpression = createMobxKsPropertyAccessExpression mobxNamespaceImport ''_async''"

definition awaitExpression :: node where
  "awaitExpression = createMobxKsPropertyAccessExpression mobxNamespaceImport ''_await''"

definition modelFlowExpression :: node where
  "modelFlowExpression = createMobxKsPropertyAccessExpression mobxNamespaceImport modelFlow"

definition modelExpression :: node where
  "modelExpression = createMobxKsPropertyAccessExpression mobxNamespaceImport ''model''"

fun declarationName :: "node \<Rightarrow> string" where
  "declarationName (PropertyDeclaration mods name q ty init) = nameText name"
| "declarationName _ = []"

fun initializer :: "node \<Rightarrow> node option" where
  "initializer (PropertyDeclaration mods name q ty init) = init"
| "initializer _ = None"

text \<open>
  Lines 70-102: a class declaration sets \<open>className\<close>. If the source text of one of its
  modifiers contains \<open>autoModel\<close>, the first such modifier is taken out and the decorator
  \<open>@model(modelName)\<close> is put last. \<open>getText\<close> gives a modifier's source text; the filter
  by identity with the modifier found takes out that one occurrence.
\<close>

definition modelNameOf :: "options \<Rightarrow> string \<Rightarrow> string" where
  "modelNameOf opts file =
     (case generateModelNameFromFilename opts of Some f \<Rightarrow> f file | None \<Rightarrow> file)"

definition visitClass ::
  "(modifierLike \<Rightarrow> string) \<Rightarrow> options \<Rightarrow> string \<Rightarrow> state \<Rightarrow> node \<Rightarrow> node \<times> state" where
  "visitClass getText opts file st node =
     (case node of
        ClassDeclaration mods name heritage members \<Rightarrow>
          (let st1 = st\<lparr>className := (case name of Some n \<Rightarrow> n | None \<Rightarrow> [])\<rparr> in
           case find (\<lambda>x. includes_str (getText x) ''autoModel'') mods of
             None \<Rightarrow> (node, st1)
           | Some autoModelDecorator \<Rightarrow>
               (ClassDeclaration
                  (remove1 autoModelDecorator mods @
                   [Decorator (CallExpression modelExpression
                      [StringLiteral (modelNameOf opts file)])])
                  name heritage members,
                st1\<lparr>transformed := True\<rparr>))
      | _ \<Rightarrow> (node, st))"

text \<open>
  Lines 109-141, the visitor given to the children of a property declaration. Of those
  children only the initializer can be a call expression. A call of an identifier whose text
  starts with \<open>autoFlow\<close> records the property's name; if its first argument is an arrow
  function or a function expression, the call is replaced by the wrapped generator.
  Reading \<^verbatim>\<open>fn.kind\<close> of a missing first argument is a TypeError.
\<close>

definition visitAutoFlowCall :: "propertyName \<Rightarrow> state \<Rightarrow> node \<Rightarrow> error + (node \<times> state)" where
  "visitAutoFlowCall parentName st node =
     (case node of
        CallExpression callee arguments \<Rightarrow>
          (case identifierText callee of
             None \<Rightarrow> Inr (node, st)
           | Some text \<Rightarrow>
               if \<not> startsWith text autoFlow then Inr (node, st)
               else
                 (let st1 = st\<lparr>functionsToAddDecoratorsTo :=
                              functionsToAddDecoratorsTo st @ [nameText parentName]\<rparr> in
                  case arguments of
                    [] \<Rightarrow> Inl TypeError
                  | fn # _ \<Rightarrow>
                      if isArrowFunction fn \<or> isFunctionExpression fn then
                        (let st2 = st1\<lparr>transformed := True\<rparr>;
                             newFunctionBlock = createNewFunctionBlock fn awaitExpression
                         in case transformFunction newFunctionBlock asyncExpression
                                   (className st2) of
                              Inl e \<Rightarrow> Inl e
                            | Inr call \<Rightarrow> Inr (call, st2))
                      else Inr (node, st1)))
      | _ \<Rightarrow> Inr (node, st))"

text \<open>Lines 104-144: \<open>newNode\<close>, defined for a property declaration only.\<close>

definition visitPropertyChildren :: "state \<Rightarrow> node \<Rightarrow> error + (node option \<times> state)" where
  "visitPropertyChildren st node =
     (case node of
        PropertyDeclaration mods name q ty init \<Rightarrow>
          (case init of
             None \<Rightarrow> Inr (Some node, st)
           | Some i \<Rightarrow>
               (case visitAutoFlowCall name st i of
                  Inl e \<Rightarrow> Inl e
                | Inr (i', st') \<Rightarrow> Inr (Some (PropertyDeclaration mods name q ty (Some i')), st')))
      | _ \<Rightarrow> Inr (None, st))"

text \<open>
  Lines 165-190: a method with a body and an \<open>@autoFlow\<close> decorator becomes a property whose
  initializer is a function expression with the method's modifiers, parameters and body.
\<close>

fun convertMethod :: "node \<Rightarrow> node" where
  "convertMethod (MethodDeclaration mods ast name q ps ty (Some body)) =
     (if hasDecorator mods autoFlow then
        PropertyDeclaration mods name q ty
          (Some (FunctionExpression mods ast
             (case name of IdentifierName n \<Rightarrow> Some n | OtherName _ \<Rightarrow> None) ps ty body))
      else MethodDeclaration mods ast name q ps ty (Some body))"
| "convertMethod node = node"

text \<open>
  Lines 192-214: a property with an \<open>@autoFlow\<close> decorator whose initializer is an arrow
  function or a function expression is rewritten and returned; any other node goes on to
  \<^verbatim>\<open>ts.visitEachChild(node, visitor, context)\<close>.
\<close>

definition visitDecorated :: "state \<Rightarrow> node \<Rightarrow> error + outcome" where
  "visitDecorated st node0 =
     (let node = convertMethod node0 in
      case node of
        PropertyDeclaration mods name q ty (Some fn) \<Rightarrow>
          if hasDecorator mods autoFlow \<and> (isArrowFunction fn \<or> isFunctionExpression fn) then
            (let st1 = st\<lparr>transformed := True\<rparr>;
                 newFn = createNewFunctionBlock fn awaitExpression
             in case transformFunction newFn asyncExpression (className st1) of
                  Inl e \<Rightarrow> Inl e
                | Inr call \<Rightarrow>
                    Inr (Done (transformPropertyDeclaration node (Some call) modelFlowExpression)
                           st1))
          else Inr (Descend node st)
      | _ \<Rightarrow> Inr (Descend node st))"

text \<open>
  The visitor's own work on one node, lines 70-212, up to the final descent. Lines 146-163:
  when \<open>newNode\<close> is a property declaration whose name was recorded, it is returned with
  its decorators normalised and the initializer it has.
\<close>

definition visitNode ::
  "(modifierLike \<Rightarrow> string) \<Rightarrow> options \<Rightarrow> string \<Rightarrow> state \<Rightarrow> node \<Rightarrow> error + outcome" where
  "visitNode getText opts file st node0 =
     (let (node, st1) = visitClass getText opts file st node0 in
      case visitPropertyChildren st1 node of
        Inl e \<Rightarrow> Inl e
      | Inr (None, st2) \<Rightarrow> visitDecorated st2 node
      | Inr (Some newNode, st2) \<Rightarrow>
          if isPropertyDeclaration newNode \<and>
             declarationName newNode \<in> set (functionsToAddDecoratorsTo st2)
          then
            (case (if isPropertyDeclaration newNode then Some newNode else None) of
               None \<Rightarrow> Inl CouldNotResolvePropertyDeclaration
             | Some pd \<Rightarrow>
                 Inr (Done (transformPropertyDeclaration pd (initializer newNode)
                              modelFlowExpression) st2))
          else visitDecorated st2 node)"

section \<open>Visiting the children of a node\<close>

text \<open>
  \<^verbatim>\<open>ts.visitEachChild(node, visitor, context)\<close> applies the visitor to each child in source
  order and rebuilds the node from the results. Here a visitor also passes the state of the
  pass along and may throw, which ends the whole traversal.
\<close>

type_synonym visitorFn = "state \<Rightarrow> node \<Rightarrow> error + (node \<times> state)"

fun visitNodes :: "visitorFn \<Rightarrow> state \<Rightarrow> node list \<Rightarrow> error + (node list \<times> state)" where
  "visitNodes v st [] = Inr ([], st)"
| "visitNodes v st (x # xs) =
     (case v st x of
        Inl e \<Rightarrow> Inl e
      | Inr (x', st1) \<Rightarrow>
          (case visitNodes v st1 xs of
             Inl e \<Rightarrow> Inl e
           | Inr (xs', st2) \<Rightarrow> Inr (x' # xs', st2)))"

fun visitOptional :: "visitorFn \<Rightarrow> state \<Rightarrow> node option \<Rightarrow> error + (node option \<times> state)" where
  "visitOptional v st None = Inr (None, st)"
| "visitOptional v st (Some x) =
     (case v st x of Inl e \<Rightarrow> Inl e | Inr (x', st1) \<Rightarrow> Inr (Some x', st1))"

fun visitModifier :: "visitorFn \<Rightarrow> state \<Rightarrow> modifierLike \<Rightarrow> error + (modifierLike \<times> state)" where
  "visitModifier v st (Decorator e) =
     (case v st e of Inl err \<Rightarrow> Inl err | Inr (e', st1) \<Rightarrow> Inr (Decorator e', st1))"
| "visitModifier v st m = Inr (m, st)"

fun visitModifiers ::
  "visitorFn \<Rightarrow> state \<Rightarrow> modifierLike list \<Rightarrow> error + (modifierLike list \<times> state)" where
  "visitModifiers v st [] = Inr ([], st)"
| "visitModifiers v st (m # ms) =
     (case visitModifier v st m of
        Inl e \<Rightarrow> Inl e
      | Inr (m', st1) \<Rightarrow>
          (case visitModifiers v st1 ms of
             Inl e \<Rightarrow> Inl e
           | Inr (ms', st2) \<Rightarrow> Inr (m' # ms', st2)))"

fun visitEachChild :: "visitorFn \<Rightarrow> state \<Rightarrow> node \<Rightarrow> error + (node \<times> state)" where
  "visitEachChild v st (Identifier s) = Inr (Identifier s, st)"
| "visitEachChild v st (GeneratedIdentifier s) = Inr (GeneratedIdentifier s, st)"
| "visitEachChild v st (StringLiteral s) = Inr (StringLiteral s, st)"
| "visitEachChild v st (PropertyAccessExpression e name) =
     (case v st e of
        Inl err \<Rightarrow> Inl err
      | Inr (e', st1) \<Rightarrow> Inr (PropertyAccessExpression e' name, st1))"
| "visitEachChild v st (CallExpression f args) =
     (case v st f of
        Inl err \<Rightarrow> Inl err
      | Inr (f', st1) \<Rightarrow>
          (case visitNodes v st1 args of
             Inl err \<Rightarrow> Inl err
           | Inr (args', st2) \<Rightarrow> Inr (CallExpression f' args', st2)))"
| "visitEachChild v st (AwaitExpression e) =
     (case v st e of
        Inl err \<Rightarrow> Inl err
      | Inr (e', st1) \<Rightarrow> Inr (AwaitExpression e', st1))"
| "visitEachChild v st (YieldExpression ast e) =
     (case v st e of
        Inl err \<Rightarrow> Inl err
      | Inr (e', st1) \<Rightarrow> Inr (YieldExpression ast e', st1))"
| "visitEachChild v st (ArrowFunction mods ps ty body) =
     (case visitModifiers v st mods of
        Inl err \<Rightarrow> Inl err
      | Inr (mods', st1) \<Rightarrow>
          (case v st1 body of
             Inl err \<Rightarrow> Inl err
           | Inr (body', st2) \<Rightarrow> Inr (ArrowFunction mods' ps ty body', st2)))"
| "visitEachChild v st (FunctionExpression mods ast name ps ty body) =
     (case visitModifiers v st mods of
        Inl err \<Rightarrow> Inl err
      | Inr (mods', st1) \<Rightarrow>
          (case v st1 body of
             Inl err \<Rightarrow> Inl err
           | Inr (body', st2) \<Rightarrow> Inr (FunctionExpression mods' ast name ps ty body', st2)))"
| "visitEachChild v st (PropertyDeclaration mods name q ty init) =
     (case visitModifiers v st mods of
        Inl err \<Rightarrow> Inl err
      | Inr (mods', st1) \<Rightarrow>
          (case visitOptional v st1 init of
             Inl err \<Rightarrow> Inl err
           | Inr (init', st2) \<Rightarrow> Inr (PropertyDeclaration mods' name q ty init', st2)))"
| "visitEachChild v st (MethodDeclaration mods ast name q ps ty body) =
     (case visitModifiers v st mods of
        Inl err \<Rightarrow> Inl err
      | Inr (mods', st1) \<Rightarrow>
          (case visitOptional v st1 body of
             Inl err \<Rightarrow> Inl err
           | Inr (body', st2) \<Rightarrow> Inr (MethodDeclaration mods' ast name q ps ty body', st2)))"
| "visitEachChild v st (ClassDeclaration mods name heritage members) =
     (case visitModifiers v st mods of
        Inl err \<Rightarrow> Inl err
      | Inr (mods', st1) \<Rightarrow>
          (case visitNodes v st1 heritage of
             Inl err \<Rightarrow> Inl err
           | Inr (heritage', st2) \<Rightarrow>
               (case visitNodes v st2 members of
                  Inl err \<Rightarrow> Inl err
                | Inr (members', st3) \<Rightarrow>
                    Inr (ClassDeclaration mods' name heritage' members', st3))))"
| "visitEachChild v st (ImportDeclaration binding specifier) =
     (case v st binding of
        Inl err \<Rightarrow> Inl err
      | Inr (binding', st1) \<Rightarrow>
          (case v st1 specifier of
             Inl err \<Rightarrow> Inl err
           | Inr (specifier', st2) \<Rightarrow> Inr (ImportDeclaration binding' specifier', st2)))"
| "visitEachChild v st (FunctionLikeNode kind children) =
     (case visitNodes v st children of
        Inl err \<Rightarrow> Inl err
      | Inr (children', st1) \<Rightarrow> Inr (FunctionLikeNode kind children', st1))"
| "visitEachChild v st (OtherNode kind children) =
     (case visitNodes v st children of
        Inl err \<Rightarrow> Inl err
      | Inr (children', st1) \<Rightarrow> Inr (OtherNode kind children', st1))"

text \<open>The nodes a visitor is applied to by \<open>visitEachChild\<close>.\<close>

fun modifierChildren :: "modifierLike \<Rightarrow> node list" where
  "modifierChildren (Decorator e) = [e]"
| "modifierChildren _ = []"

fun optionalChildren :: "node option \<Rightarrow> node list" where
  "optionalChildren None = []"
| "optionalChildren (Some x) = [x]"

fun childrenOf :: "node \<Rightarrow> node list" where
  "childrenOf (PropertyAccessExpression e name) = [e]"
| "childrenOf (CallExpression f args) = f # args"
| "childrenOf (AwaitExpression e) = [e]"
| "childrenOf (YieldExpression ast e) = [e]"
| "childrenOf (ArrowFunction mods ps ty body) = concat (map modifierChildren mods) @ [body]"
| "childrenOf (FunctionExpression mods ast name ps ty body) =
     concat (map modifierChildren mods) @ [body]"
| "childrenOf (PropertyDeclaration mods name q ty init) =
     concat (map modifierChildren mods) @ optionalChildren init"
| "childrenOf (MethodDeclaration mods ast name q ps ty body) =
     concat (map modifierChildren mods) @ optionalChildren body"
| "childrenOf (ClassDeclaration mods name heritage members) =
     concat (map modifierChildren mods) @ heritage @ members"
| "childrenOf (ImportDeclaration binding specifier) = [binding, specifier]"
| "childrenOf (FunctionLikeNode kind children) = children"
| "childrenOf (OtherNode kind children) = children"
| "childrenOf _ = []"

text \<open>A visitor is only ever applied to the children of the node.\<close>

lemma visitNodes_ext:
  "(\<And>t c. c \<in> set xs \<Longrightarrow> v t c = w t c) \<Longrightarrow> visitNodes v st xs = visitNodes w st xs"
  by (induction xs arbitrary: st) (simp_all split: sum.split prod.split)

lemma visitOptional_ext:
  "(\<And>t c. c \<in> set (optionalChildren x) \<Longrightarrow> v t c = w t c)
   \<Longrightarrow> visitOptional v st x = visitOptional w st x"
  by (cases x) simp_all

lemma visitModifier_ext:
  "(\<And>t c. c \<in> set (modifierChildren m) \<Longrightarrow> v t c = w t c)
   \<Longrightarrow> visitModifier v st m = visitModifier w st m"
  by (cases m) simp_all

lemma visitModifiers_ext:
  "(\<And>t c. c \<in> set (concat (map modifierChildren ms)) \<Longrightarrow> v t c = w t c)
   \<Longrightarrow> visitModifiers v st ms = visitModifiers w st ms"
proof (induction ms arbitrary: st)
  case Nil
  then show ?case by simp
next
  case (Cons m ms)
  have "visitModifier v st m = visitModifier w st m"
    by (rule visitModifier_ext) (simp add: Cons.prems)
  moreover have "\<And>t. visitModifiers v t ms = visitModifiers w t ms"
    by (rule Cons.IH) (simp add: Cons.prems)
  ultimately show ?case by (simp split: sum.split prod.split)
qed

lemma visitEachChild_cong [fundef_cong]:
  assumes "st = st'" and "n = n'"
    and eq: "\<And>t c. c \<in> set (childrenOf n') \<Longrightarrow> v t c = w t c"
  shows "visitEachChild v st n = visitEachChild w st' n'"
proof -
  have "visitEachChild v st' n' = visitEachChild w st' n'"
  proof (cases n')
    case (CallExpression f args)
    have "\<And>t. visitNodes v t args = visitNodes w t args"
      by (rule visitNodes_ext) (simp add: eq CallExpression)
    then show ?thesis using CallExpression eq by (simp split: sum.split prod.split)
  next
    case (ArrowFunction mods ps ty body)
    have "\<And>t. visitModifiers v t mods = visitModifiers w t mods"
      by (rule visitModifiers_ext) (simp add: eq ArrowFunction)
    then show ?thesis using ArrowFunction eq by (simp split: sum.split prod.split)
  next
    case (FunctionExpression mods ast name ps ty body)
    have "\<And>t. visitModifiers v t mods = visitModifiers w t mods"
      by (rule visitModifiers_ext) (simp add: eq FunctionExpression)
    then show ?thesis using FunctionExpression eq by (simp split: sum.split prod.split)
  next
    case (PropertyDeclaration mods name q ty init)
    have "\<And>t. visitModifiers v t mods = visitModifiers w t mods"
      by (rule visitModifiers_ext) (simp add: eq PropertyDeclaration)
    moreover have "\<And>t. visitOptional v t init = visitOptional w t init"
      by (rule visitOptional_ext) (simp add: eq PropertyDeclaration)
    ultimately show ?thesis using PropertyDeclaration by (simp split: sum.split prod.split)
  next
    case (MethodDeclaration mods ast name q ps ty body)
    have "\<And>t. visitModifiers v t mods = visitModifiers w t mods"
      by (rule visitModifiers_ext) (simp add: eq MethodDeclaration)
    moreover have "\<And>t. visitOptional v t body = visitOptional w t body"
      by (rule visitOptional_ext) (simp add: eq MethodDeclaration)
    ultimately show ?thesis using MethodDeclaration by (simp split: sum.split prod.split)
  next
    case (ClassDeclaration mods name heritage members)
    have "\<And>t. visitModifiers v t mods = visitModifiers w t mods"
      by (rule visitModifiers_ext) (simp add: eq ClassDeclaration)
    moreover have "\<And>t. visitNodes v t heritage = visitNodes w t heritage"
      by (rule visitNodes_ext) (simp add: eq ClassDeclaration)
    moreover have "\<And>t. visitNodes v t members = visitNodes w t members"
      by (rule visitNodes_ext) (simp add: eq ClassDeclaration)
    ultimately show ?thesis using ClassDeclaration by (simp split: sum.split prod.split)
  next
    case (FunctionLikeNode kind children)
    have "\<And>t. visitNodes v t children = visitNodes w t children"
      by (rule visitNodes_ext) (simp add: eq FunctionLikeNode)
    then show ?thesis using FunctionLikeNode by (simp split: sum.split prod.split)
  next
    case (OtherNode kind children)
    have "\<And>t. visitNodes v t children = visitNodes w t children"
      by (rule visitNodes_ext) (simp add: eq OtherNode)
    then show ?thesis using OtherNode by (simp split: sum.split prod.split)
  qed (use eq in \<open>simp_all split: sum.split prod.split\<close>)
  then show ?thesis using assms(1,2) by simp
qed

text \<open>
  The visitor descends into the children of the node it was given or, for a class with an
  \<open>autoModel\<close> modifier, of the updated class, whose new decorator is a small fixed tree.
  The weight of a node bounds both.
\<close>

fun weight :: "node \<Rightarrow> nat" and weight_modifier :: "modifierLike \<Rightarrow> nat" where
  "weight (Identifier s) = 1"
| "weight (GeneratedIdentifier s) = 1"
| "weight (StringLiteral s) = 1"
| "weight (PropertyAccessExpression e name) = Suc (weight e)"
| "weight (CallExpression f args) = Suc (weight f + sum_list (map weight args))"
| "weight (AwaitExpression e) = Suc (weight e)"
| "weight (YieldExpression ast e) = Suc (weight e)"
| "weight (ArrowFunction mods ps ty body) =
     Suc (sum_list (map weight_modifier mods) + weight body)"
| "weight (FunctionExpression mods ast name ps ty body) =
     Suc (sum_list (map weight_modifier mods) + weight body)"
| "weight (PropertyDeclaration mods name q ty init) =
     Suc (sum_list (map weight_modifier mods) + (case init of None \<Rightarrow> 0 | Some i \<Rightarrow> weight i))"
| "weight (MethodDeclaration mods ast name q ps ty body) =
     Suc (sum_list (map weight_modifier mods) + (case body of None \<Rightarrow> 0 | Some i \<Rightarrow> weight i))"
| "weight (ClassDeclaration mods name heritage members) =
     5 + (sum_list (map weight_modifier mods) + sum_list (map weight heritage)
          + sum_list (map weight members))"
| "weight (ImportDeclaration binding specifier) = Suc (weight binding + weight specifier)"
| "weight (FunctionLikeNode kind children) = Suc (sum_list (map weight children))"
| "weight (OtherNode kind children) = Suc (sum_list (map weight children))"
| "weight_modifier (Decorator e) = weight e"
| "weight_modifier AsyncKeyword = 0"
| "weight_modifier (OtherModifier s) = 0"


lemma weight_pos: "0 < weight n"
  by (cases n) simp_all

lemma weight_member: "c \<in> set xs \<Longrightarrow> weight c \<le> sum_list (map weight xs)"
  by (induction xs) auto

lemma weight_modifierChildren:
  "m \<in> set ms \<Longrightarrow> c \<in> set (modifierChildren m) \<Longrightarrow> weight c \<le> sum_list (map weight_modifier ms)"
proof (induction ms)
  case Nil
  then show ?case by simp
next
  case (Cons a ms)
  then show ?case by (cases m) auto
qed

lemma weight_childrenOf: "c \<in> set (childrenOf n) \<Longrightarrow> weight c < weight n"
  by (cases n)
    (auto dest: weight_member weight_modifierChildren simp: less_Suc_eq_le trans_le_add1
      trans_le_add2 split: option.splits)

lemma visitDecorated_Descend: "visitDecorated st node = Inr (Descend n s) \<Longrightarrow> n = node"
  by (cases node rule: convertMethod.cases)
    (auto simp: visitDecorated_def Let_def split: if_splits sum.splits option.splits)

lemma visitNode_Descend_class:
  "visitNode getText opts file st node = Inr (Descend n s)
   \<Longrightarrow> n = fst (visitClass getText opts file st node)"
  by (auto simp: visitNode_def split: prod.splits sum.splits option.splits if_splits
      dest: visitDecorated_Descend)

lemma weight_visitClass:
  "c \<in> set (childrenOf (fst (visitClass getText opts file st node))) \<Longrightarrow> weight c < weight node"
proof (cases node)
  case (ClassDeclaration mods name heritage members)
  assume c: "c \<in> set (childrenOf (fst (visitClass getText opts file st node)))"
  show ?thesis
  proof (cases "find (\<lambda>x. includes_str (getText x) ''autoModel'') mods")
    case None
    then show ?thesis using c ClassDeclaration weight_childrenOf[of c node]
      by (simp add: visitClass_def)
  next
    case (Some d)
    then consider "\<exists>m \<in> set (remove1 d mods). c \<in> set (modifierChildren m)"
      | "c = CallExpression modelExpression [StringLiteral (modelNameOf opts file)]"
      | "c \<in> set heritage" | "c \<in> set members"
      using c ClassDeclaration by (auto simp: visitClass_def)
    then show ?thesis
    proof cases
      case 1
      then obtain m where "m \<in> set mods" "c \<in> set (modifierChildren m)"
        using set_remove1_subset by fastforce
      then show ?thesis using ClassDeclaration weight_modifierChildren[of m mods c] by simp
    next
      case 2
      then show ?thesis using ClassDeclaration
        by (simp add: modelExpression_def createMobxKsPropertyAccessExpression_def
            mobxNamespaceImport_def)
    next
      case 3
      then show ?thesis using ClassDeclaration weight_member[of c heritage] by simp
    next
      case 4
      then show ?thesis using ClassDeclaration weight_member[of c members] by simp
    qed
  qed
qed (use weight_childrenOf[of c node] in \<open>auto simp: visitClass_def\<close>)

lemma visitNode_Descend:
  assumes "visitNode getText opts file st node = Inr (Descend n s)"
    and "c \<in> set (childrenOf n)"
  shows "weight c < weight node"
  using assms weight_visitClass visitNode_Descend_class by blast

text \<open>
  The visitor of \<open>visitSourceFile\<close> (lines 69-215): its own work on the node, then, unless
  the node was returned or an error thrown, itself on every child.
\<close>

function visitor ::
  "(modifierLike \<Rightarrow> string) \<Rightarrow> options \<Rightarrow> string \<Rightarrow> state \<Rightarrow> node \<Rightarrow> error + (node \<times> state)" where
  "visitor getText opts file st node =
     (case visitNode getText opts file st node of
        Inl e \<Rightarrow> Inl e
      | Inr (Done node' st') \<Rightarrow> Inr (node', st')
      | Inr (Descend node' st') \<Rightarrow> visitEachChild (visitor getText opts file) st' node')"
  by pat_completeness auto
termination
  by (relation "measure (\<lambda>(getText, opts, file, st, node). weight node)")
     (auto dest: visitNode_Descend)


text \<open>
  \<open>addImportMobxStatement\<close> puts \<open>import * as mobxKs from "package"\<close> before the statements
  of the file.
\<close>

definition addImportMobxStatement :: "sourceFile \<Rightarrow> string \<Rightarrow> node \<Rightarrow> sourceFile" where
  "addImportMobxStatement source mobxPackage mobxNamespaceImport' =
     source\<lparr>statements :=
       ImportDeclaration mobxNamespaceImport' (StringLiteral mobxPackage) # statements source\<rparr>"

definition initialState :: state where
  "initialState = \<lparr>transformed = False, className = [], functionsToAddDecoratorsTo = []\<rparr>"

text \<open>
  \<open>visitSourceFile\<close>: the visitor runs over the statements of the file with the import in
  front; the result is that file when some branch set \<open>transformed\<close>, and the file given
  otherwise. An empty package name counts as none (\<^verbatim>\<open>||\<close>).
\<close>

definition visitSourceFile ::
  "(modifierLike \<Rightarrow> string) \<Rightarrow> options \<Rightarrow> sourceFile \<Rightarrow> error + sourceFile" where
  "visitSourceFile getText opts source =
     (let resSource = addImportMobxStatement source
            (case mobxKeystonePackage opts of
               None \<Rightarrow> ''mobx-keystone''
             | Some p \<Rightarrow> if p = [] then ''mobx-keystone'' else p)
            mobxNamespaceImport
      in case visitNodes (visitor getText opts (fileName resSource)) initialState
                (statements resSource) of
           Inl e \<Rightarrow> Inl e
         | Inr (convertToFlowResult, st) \<Rightarrow>
             if transformed st then Inr (resSource\<lparr>statements := convertToFlowResult\<rparr>)
             else Inr source)"

section \<open>Source text of modifiers\<close>

text \<open>
  \<^verbatim>\<open>getText()\<close> reads a node's text from the file, so the visitor takes it as a
  parameter. For the modifiers used in the examples below it is the text as one writes it:
  a keyword, or \<open>@\<close> and the decorator's expression, where the expression is built from
  identifiers, string literals, property accesses and calls; \<open>expressionText\<close> renders no
  other expression.
\<close>

fun commaSeparated :: "string list \<Rightarrow> string" where
  "commaSeparated [] = []"
| "commaSeparated [x] = x"
| "commaSeparated (x # y # ys) = x @ '', '' @ commaSeparated (y # ys)"

fun expressionText :: "node \<Rightarrow> string" where
  "expressionText (Identifier s) = s"
| "expressionText (GeneratedIdentifier s) = s"
| "expressionText (StringLiteral s) = [CHR 0x22] @ s @ [CHR 0x22]"
| "expressionText (PropertyAccessExpression e name) = expressionText e @ ''.'' @ name"
| "expressionText (CallExpression f args) =
     expressionText f @ ''('' @ commaSeparated (map expressionText args) @ '')''"
| "expressionText _ = []"

fun modifierText :: "modifierLike \<Rightarrow> string" where
  "modifierText (Decorator e) = ''@'' @ expressionText e"
| "modifierText AsyncKeyword = ''async''"
| "modifierText (OtherModifier s) = s"

definition defaultOptions :: options where
  "defaultOptions = \<lparr>mobxKeystonePackage = None, generateModelNameFromFilename = None\<rparr>"

section \<open>Notions used to state the properties\<close>

text \<open>The modifiers that the reduce in \<open>ensureDecorators\<close> keeps.\<close>

definition keptModifier :: "modifierLike \<Rightarrow> bool" where
  "keptModifier x = (x \<noteq> AsyncKeyword \<and> \<not> isSpecificDecorator x autoFlow)"

text \<open>
  The outermost function-like nodes below a node, in source order: the nested functions
  of a function body.
\<close>

fun functionLikes :: "node \<Rightarrow> node list"
  and functionLikes_modifier :: "modifierLike \<Rightarrow> node list" where
  "functionLikes (ArrowFunction mods ps ty body) = [ArrowFunction mods ps ty body]"
| "functionLikes (FunctionExpression mods ast name ps ty body) =
     [FunctionExpression mods ast name ps ty body]"
| "functionLikes (MethodDeclaration mods ast name q ps ty body) =
     [MethodDeclaration mods ast name q ps ty body]"
| "functionLikes (FunctionLikeNode kind children) = [FunctionLikeNode kind children]"
| "functionLikes (Identifier s) = []"
| "functionLikes (GeneratedIdentifier s) = []"
| "functionLikes (StringLiteral s) = []"
| "functionLikes (PropertyAccessExpression e name) = functionLikes e"
| "functionLikes (CallExpression f args) = functionLikes f @ concat (map functionLikes args)"
| "functionLikes (AwaitExpression e) = functionLikes e"
| "functionLikes (YieldExpression ast e) = functionLikes e"
| "functionLikes (PropertyDeclaration mods name q ty init) =
     concat (map functionLikes_modifier mods) @
     (case init of None \<Rightarrow> [] | Some i \<Rightarrow> functionLikes i)"
| "functionLikes (ClassDeclaration mods name heritage members) =
     concat (map functionLikes_modifier mods) @ concat (map functionLikes heritage) @
     concat (map functionLikes members)"
| "functionLikes (ImportDeclaration binding specifier) =
     functionLikes binding @ functionLikes specifier"
| "functionLikes (OtherNode kind children) = concat (map functionLikes children)"
| "functionLikes_modifier (Decorator e) = functionLikes e"
| "functionLikes_modifier AsyncKeyword = []"
| "functionLikes_modifier (OtherModifier s) = []"

text \<open>
  The triggers as the visitor tests for them: a property initialised by a call of an
  identifier whose text starts with \<open>autoFlow\<close>, a property or method with an \<open>@autoFlow\<close>
  decorator, and a class with a modifier whose text contains \<open>autoModel\<close>. \<open>noTrigger\<close> holds
  of a tree with none of them anywhere.
\<close>

fun isAutoFlowCall :: "node \<Rightarrow> bool" where
  "isAutoFlowCall (CallExpression callee arguments) =
     (case identifierText callee of None \<Rightarrow> False | Some text \<Rightarrow> startsWith text autoFlow)"
| "isAutoFlowCall _ = False"

fun noTrigger :: "(modifierLike \<Rightarrow> string) \<Rightarrow> node \<Rightarrow> bool"
  and noTrigger_modifier :: "(modifierLike \<Rightarrow> string) \<Rightarrow> modifierLike \<Rightarrow> bool" where
  "noTrigger getText (Identifier s) = True"
| "noTrigger getText (GeneratedIdentifier s) = True"
| "noTrigger getText (StringLiteral s) = True"
| "noTrigger getText (PropertyAccessExpression e name) = noTrigger getText e"
| "noTrigger getText (CallExpression f args) =
     (noTrigger getText f \<and> list_all (noTrigger getText) args)"
| "noTrigger getText (AwaitExpression e) = noTrigger getText e"
| "noTrigger getText (YieldExpression ast e) = noTrigger getText e"
| "noTrigger getText (ArrowFunction mods ps ty body) =
     (list_all (noTrigger_modifier getText) mods \<and> noTrigger getText body)"
| "noTrigger getText (FunctionExpression mods ast name ps ty body) =
     (list_all (noTrigger_modifier getText) mods \<and> noTrigger getText body)"
| "noTrigger getText (PropertyDeclaration mods name q ty init) =
     (\<not> hasDecorator mods autoFlow \<and> list_all (noTrigger_modifier getText) mods
      \<and> (case init of None \<Rightarrow> True | Some i \<Rightarrow> \<not> isAutoFlowCall i \<and> noTrigger getText i))"
| "noTrigger getText (MethodDeclaration mods ast name q ps ty body) =
     (\<not> hasDecorator mods autoFlow \<and> list_all (noTrigger_modifier getText) mods
      \<and> (case body of None \<Rightarrow> True | Some b \<Rightarrow> noTrigger getText b))"
| "noTrigger getText (ClassDeclaration mods name heritage members) =
     (list_all (\<lambda>x. \<not> includes_str (getText x) ''autoModel'') mods
      \<and> list_all (noTrigger_modifier getText) mods
      \<and> list_all (noTrigger getText) heritage \<and> list_all (noTrigger getText) members)"
| "noTrigger getText (ImportDeclaration binding specifier) =
     (noTrigger getText binding \<and> noTrigger getText specifier)"
| "noTrigger getText (FunctionLikeNode kind children) = list_all (noTrigger getText) children"
| "noTrigger getText (OtherNode kind children) = list_all (noTrigger getText) children"
| "noTrigger_modifier getText (Decorator e) = noTrigger getText e"
| "noTrigger_modifier getText AsyncKeyword = True"
| "noTrigger_modifier getText (OtherModifier s) = True"

text \<open>
  \<open>namesFree names\<close> holds of a tree in which no property declaration has one of the
  names. Two states have the same flags when they agree on \<open>transformed\<close> and on the
  recorded names; the class name may differ.
\<close>

fun namesFree :: "string list \<Rightarrow> node \<Rightarrow> bool"
  and namesFree_modifier :: "string list \<Rightarrow> modifierLike \<Rightarrow> bool" where
  "namesFree names (Identifier s) = True"
| "namesFree names (GeneratedIdentifier s) = True"
| "namesFree names (StringLiteral s) = True"
| "namesFree names (PropertyAccessExpression e name) = namesFree names e"
| "namesFree names (CallExpression f args) =
     (namesFree names f \<and> list_all (namesFree names) args)"
| "namesFree names (AwaitExpression e) = namesFree names e"
| "namesFree names (YieldExpression ast e) = namesFree names e"
| "namesFree names (ArrowFunction mods ps ty body) =
     (list_all (namesFree_modifier names) mods \<and> namesFree names body)"
| "namesFree names (FunctionExpression mods ast name ps ty body) =
     (list_all (namesFree_modifier names) mods \<and> namesFree names body)"
| "namesFree names (PropertyDeclaration mods name q ty init) =
     (nameText name \<notin> set names \<and> list_all (namesFree_modifier names) mods
      \<and> (case init of None \<Rightarrow> True | Some i \<Rightarrow> namesFree names i))"
| "namesFree names (MethodDeclaration mods ast name q ps ty body) =
     (list_all (namesFree_modifier names) mods
      \<and> (case body of None \<Rightarrow> True | Some b \<Rightarrow> namesFree names b))"
| "namesFree names (ClassDeclaration mods name heritage members) =
     (list_all (namesFree_modifier names) mods
      \<and> list_all (namesFree names) heritage \<and> list_all (namesFree names) members)"
| "namesFree names (ImportDeclaration binding specifier) =
     (namesFree names binding \<and> namesFree names specifier)"
| "namesFree names (FunctionLikeNode kind children) = list_all (namesFree names) children"
| "namesFree names (OtherNode kind children) = list_all (namesFree names) children"
| "namesFree_modifier names (Decorator e) = namesFree names e"
| "namesFree_modifier names AsyncKeyword = True"
| "namesFree_modifier names (OtherModifier s) = True"

definition sameFlags :: "state \<Rightarrow> state \<Rightarrow> bool" where
  "sameFlags st st' =
     (transformed st' = transformed st
      \<and> functionsToAddDecoratorsTo st' = functionsToAddDecoratorsTo st)"

section \<open>Example units\<close>


definition returnAwaitCallApi :: node where
  "returnAwaitCallApi =
     OtherNode ''Block''
       [OtherNode ''ReturnStatement''
          [AwaitExpression (CallExpression (Identifier ''callApi'') [Identifier ''input''])]]"

definition plainUnit :: sourceFile where
  "plainUnit =
     \<lparr>fileName = ''x.ts'',
      statements =
        [ClassDeclaration [Decorator (Identifier ''observer'')] (Some ''Test'') []
           [PropertyDeclaration [] (IdentifierName ''fn'') False None
              (Some (ArrowFunction [AsyncKeyword] [ParameterDeclaration ''input'' None] None
                 returnAwaitCallApi))]]\<rparr>"

definition nestedAwaitBody :: node where
  "nestedAwaitBody =
     OtherNode ''Block''
       [OtherNode ''ExpressionStatement'' [AwaitExpression (Identifier ''a'')],
        OtherNode ''ExpressionStatement''
          [CallExpression (Identifier ''later'')
             [ArrowFunction [AsyncKeyword] [] None (AwaitExpression (Identifier ''b''))]]]"

text \<open>
  \<^verbatim>\<open>@autoFlow async fn(input) { return await callApi(input); }\<close>, and a unit whose property
  \<^verbatim>\<open>@observable @modelFlow @autoFlow fn = async () => {}\<close> already has a \<open>modelFlow\<close>
  decorator, in second place.
\<close>

definition decoratedMethod :: node where
  "decoratedMethod =
     MethodDeclaration [Decorator (Identifier ''autoFlow''), AsyncKeyword] False
       (IdentifierName ''fn'') False [ParameterDeclaration ''input'' None] None
       (Some returnAwaitCallApi)"

definition observableFlowUnit :: sourceFile where
  "observableFlowUnit =
     \<lparr>fileName = ''x.ts'',
      statements =
        [ClassDeclaration [] (Some ''Test'') []
           [PropertyDeclaration
              [Decorator (Identifier ''observable''), Decorator (Identifier ''modelFlow''),
               Decorator (Identifier ''autoFlow'')]
              (IdentifierName ''fn'') False None
              (Some (ArrowFunction [AsyncKeyword] [] None (OtherNode ''Block'' [])))]]\<rparr>"

text \<open>
  \<^verbatim>\<open>decorator class Test {}\<close> in the file \<open>a/b/Test.ts\<close>; a unit whose wrapped function
  \<^verbatim>\<open>fn = autoFlow(() => {})\<close> is not async; a unit with one wrapped async function and one
  wrapper call on something that is not a function value, \<^verbatim>\<open>fn = autoFlow(handler)\<close>; and
  the method \<^verbatim>\<open>@autoFlow() async fn(input) { return await callApi(input); }\<close>, whose
  decorator is a call.
\<close>

definition autoModelUnit :: "modifierLike \<Rightarrow> sourceFile" where
  "autoModelUnit decorator =
     \<lparr>fileName = ''a/b/Test.ts'',
      statements = [ClassDeclaration [decorator] (Some ''Test'') [] []]\<rparr>"

definition notAsyncUnit :: sourceFile where
  "notAsyncUnit =
     \<lparr>fileName = ''x.ts'',
      statements =
        [ClassDeclaration [] (Some ''Test'') []
           [PropertyDeclaration [] (IdentifierName ''fn'') False None
              (Some (CallExpression (Identifier ''autoFlow'')
                 [ArrowFunction [] [] None (OtherNode ''Block'' [])]))]]\<rparr>"

definition unsupportedArgumentUnit :: sourceFile where
  "unsupportedArgumentUnit =
     \<lparr>fileName = ''x.ts'',
      statements =
        [ClassDeclaration [] (Some ''Test'') []
           [PropertyDeclaration [] (IdentifierName ''load'') False None
              (Some (CallExpression (Identifier ''autoFlow'')
                 [ArrowFunction [AsyncKeyword] [] None (OtherNode ''Block'' [])])),
            PropertyDeclaration [] (IdentifierName ''fn'') False None
              (Some (CallExpression (Identifier ''autoFlow'') [Identifier ''handler'']))]]\<rparr>"


text \<open>
  \<^verbatim>\<open>@register(autoModelThing) @autoModel class Test {}\<close> in the file \<open>a/b/Test.ts\<close>, and
  the property \<^verbatim>\<open>@flows.autoFlow fn = async (input) => { return await callApi(input); }\<close>,
  whose decorator is a property access.
\<close>

definition registeredModelUnit :: sourceFile where
  "registeredModelUnit =
     \<lparr>fileName = ''a/b/Test.ts'',
      statements =
        [ClassDeclaration
           [Decorator (CallExpression (Identifier ''register'') [Identifier ''autoModelThing'']),
            Decorator (Identifier ''autoModel'')]
           (Some ''Test'') [] []]\<rparr>"


section \<open>Facts about the decorator list\<close>

lemma foldl_ensureDecorators_step:
  "foldl ensureDecorators_step acc ms = acc @ filter keptModifier ms"
  by (induction ms arbitrary: acc) (simp_all add: ensureDecorators_step_def keptModifier_def)

lemma ensureDecorators_filter:
  "ensureDecorators ms e =
     (if hasDecorator (filter keptModifier ms) modelFlow then filter keptModifier ms
      else Decorator e # filter keptModifier ms)"
  by (simp add: ensureDecorators_def foldl_ensureDecorators_step)

lemma hasDecorator_iff: "hasDecorator ms name = (\<exists>x \<in> set ms. isSpecificDecorator x name)"
  by (auto simp: hasDecorator_def filter_empty_conv)

lemma hasDecorator_kept_modelFlow:
  "hasDecorator (filter keptModifier ms) modelFlow = hasDecorator ms modelFlow"
proof -
  have "isSpecificDecorator x modelFlow \<Longrightarrow> keptModifier x" for x
    by (cases x) (auto simp: keptModifier_def modelFlow_def autoFlow_def)
  then show ?thesis by (auto simp: hasDecorator_iff)
qed

lemma filter_kept_idem: "filter keptModifier (filter keptModifier ms) = filter keptModifier ms"
  by simp

lemma keptModifier_Decorator:
  "keptModifier (Decorator e) = (identifierText e \<noteq> Some autoFlow)"
  by (simp add: keptModifier_def)

lemma hasDecorator_Cons:
  "hasDecorator (m # ms) name = (isSpecificDecorator m name \<or> hasDecorator ms name)"
  by (auto simp: hasDecorator_iff)

section \<open>Facts about the suspension rewriter\<close>

lemma functionLikes_replaceYield:
  "functionLikes aw = [] \<Longrightarrow>
   functionLikes (replaceYieldAndCheckNested aw n) = functionLikes n"
  "functionLikes aw = [] \<Longrightarrow>
   functionLikes_modifier (replaceYieldAndCheckNested_modifier aw m) = functionLikes_modifier m"
proof (induction aw n and aw m
    rule: replaceYieldAndCheckNested_replaceYieldAndCheckNested_modifier.induct)
  case (12 aw mods name q ty init)
  then show ?case by (cases init) (simp_all add: map_concat cong: map_cong)
qed (simp_all cong: map_cong)

section \<open>Facts about a descent\<close>

subsection \<open>Errors of a descent come from a child\<close>

lemma visitNodes_Inl:
  "visitNodes v st xs = Inl e \<Longrightarrow> \<exists>c \<in> set xs. \<exists>t. v t c = Inl e"
  by (induction xs arbitrary: st) (auto split: sum.splits prod.splits)

lemma visitOptional_Inl:
  "visitOptional v st x = Inl e \<Longrightarrow> \<exists>c \<in> set (optionalChildren x). \<exists>t. v t c = Inl e"
  by (cases x) (auto split: sum.splits prod.splits)

lemma visitModifier_Inl:
  "visitModifier v st m = Inl e \<Longrightarrow> \<exists>c \<in> set (modifierChildren m). \<exists>t. v t c = Inl e"
  by (cases m) (auto split: sum.splits prod.splits)

lemma visitModifiers_Inl:
  "visitModifiers v st ms = Inl e
   \<Longrightarrow> \<exists>c \<in> set (concat (map modifierChildren ms)). \<exists>t. v t c = Inl e"
proof (induction ms arbitrary: st)
  case Nil
  then show ?case by simp
next
  case (Cons m ms)
  show ?case
  proof (cases "visitModifier v st m")
    case (Inl e')
    then have "e' = e" using Cons.prems by simp
    then show ?thesis using visitModifier_Inl[of v st m e] Inl by auto
  next
    case (Inr r)
    then obtain m' st1 where r: "visitModifier v st m = Inr (m', st1)" by (cases r) auto
    then have "visitModifiers v st1 ms = Inl e"
      using Cons.prems by (auto split: sum.splits prod.splits)
    then obtain c t where "c \<in> set (concat (map modifierChildren ms))" "v t c = Inl e"
      using Cons.IH by blast
    then show ?thesis by auto
  qed
qed

lemma visitEachChild_Inl:
  assumes "visitEachChild v st n = Inl e"
  shows "\<exists>c \<in> set (childrenOf n). \<exists>t. v t c = Inl e"
  using assms
  by (cases n)
    (auto split: sum.splits prod.splits
      dest!: visitNodes_Inl visitModifiers_Inl visitOptional_Inl)

subsection \<open>A descent that changes nothing\<close>

lemma visitNodes_unchanged:
  assumes "\<And>c t. c \<in> set xs \<Longrightarrow> Q t \<Longrightarrow> \<exists>t'. v t c = Inr (c, t') \<and> Q t'"
    and "Q st"
  shows "\<exists>st'. visitNodes v st xs = Inr (xs, st') \<and> Q st'"
  using assms
proof (induction xs arbitrary: st)
  case Nil
  then show ?case by simp
next
  case (Cons x xs)
  obtain t1 where t1: "v st x = Inr (x, t1)" "Q t1"
    using Cons.prems(1)[of x st] Cons.prems(2) by auto
  obtain t2 where "visitNodes v t1 xs = Inr (xs, t2)" "Q t2"
    using Cons.IH[of t1] Cons.prems(1) t1(2) by auto
  then show ?case using t1 by simp
qed

lemma visitOptional_unchanged:
  assumes "\<And>c t. c \<in> set (optionalChildren x) \<Longrightarrow> Q t \<Longrightarrow> \<exists>t'. v t c = Inr (c, t') \<and> Q t'"
    and "Q st"
  shows "\<exists>st'. visitOptional v st x = Inr (x, st') \<and> Q st'"
proof (cases x)
  case None
  then show ?thesis using assms(2) by simp
next
  case (Some y)
  then obtain t1 where "v st y = Inr (y, t1)" "Q t1"
    using assms(1)[of y st] assms(2) by auto
  then show ?thesis using Some by simp
qed

lemma visitModifier_unchanged:
  assumes "\<And>c t. c \<in> set (modifierChildren m) \<Longrightarrow> Q t \<Longrightarrow> \<exists>t'. v t c = Inr (c, t') \<and> Q t'"
    and "Q st"
  shows "\<exists>st'. visitModifier v st m = Inr (m, st') \<and> Q st'"
proof (cases m)
  case (Decorator y)
  then obtain t1 where "v st y = Inr (y, t1)" "Q t1"
    using assms(1)[of y st] assms(2) by auto
  then show ?thesis using Decorator by simp
qed (use assms(2) in simp_all)

lemma visitModifiers_unchanged:
  assumes "\<And>c t. c \<in> set (concat (map modifierChildren ms)) \<Longrightarrow> Q t
             \<Longrightarrow> \<exists>t'. v t c = Inr (c, t') \<and> Q t'"
    and "Q st"
  shows "\<exists>st'. visitModifiers v st ms = Inr (ms, st') \<and> Q st'"
  using assms
proof (induction ms arbitrary: st)
  case Nil
  then show ?case by simp
next
  case (Cons m ms)
  have "\<exists>t1. visitModifier v st m = Inr (m, t1) \<and> Q t1"
    by (rule visitModifier_unchanged[where Q = Q]) (use Cons.prems in auto)
  then obtain t1 where t1: "visitModifier v st m = Inr (m, t1)" "Q t1" by auto
  have "\<exists>t2. visitModifiers v t1 ms = Inr (ms, t2) \<and> Q t2"
    by (rule Cons.IH) (use Cons.prems(1) t1(2) in auto)
  then show ?case using t1 by auto
qed

lemma visitEachChild_unchanged:
  assumes ch: "\<And>c t. c \<in> set (childrenOf n) \<Longrightarrow> Q t \<Longrightarrow> \<exists>t'. v t c = Inr (c, t') \<and> Q t'"
    and st: "Q st"
  shows "\<exists>st'. visitEachChild v st n = Inr (n, st') \<and> Q st'"
proof -
  have one: "c \<in> set (childrenOf n) \<Longrightarrow> Q t \<Longrightarrow> \<exists>t'. v t c = Inr (c, t') \<and> Q t'" for c t
    using ch by blast
  have many: "set xs \<subseteq> set (childrenOf n) \<Longrightarrow> Q t
      \<Longrightarrow> \<exists>t'. visitNodes v t xs = Inr (xs, t') \<and> Q t'" for xs t
    by (rule visitNodes_unchanged[where Q = Q]) (use ch in auto)
  have opt: "set (optionalChildren x) \<subseteq> set (childrenOf n) \<Longrightarrow> Q t
      \<Longrightarrow> \<exists>t'. visitOptional v t x = Inr (x, t') \<and> Q t'" for x t
    by (rule visitOptional_unchanged[where Q = Q]) (use ch in auto)
  have mods: "set (concat (map modifierChildren ms)) \<subseteq> set (childrenOf n) \<Longrightarrow> Q t
      \<Longrightarrow> \<exists>t'. visitModifiers v t ms = Inr (ms, t') \<and> Q t'" for ms t
    by (rule visitModifiers_unchanged[where Q = Q]) (use ch in auto)
  show ?thesis
  proof (cases n)
    case (PropertyAccessExpression e name)
    then show ?thesis using one[of e st] st by auto
  next
    case (CallExpression f args)
    then obtain t1 where t1: "v st f = Inr (f, t1)" "Q t1" using one[of f st] st by auto
    obtain t2 where "visitNodes v t1 args = Inr (args, t2)" "Q t2"
      using many[of args t1] t1(2) CallExpression by auto
    then show ?thesis using CallExpression t1 by simp
  next
    case (AwaitExpression e)
    then show ?thesis using one[of e st] st by auto
  next
    case (YieldExpression ast e)
    then show ?thesis using one[of e st] st by auto
  next
    case (ArrowFunction ms ps ty body)
    then obtain t1 where t1: "visitModifiers v st ms = Inr (ms, t1)" "Q t1"
      using mods[of ms st] st by auto
    obtain t2 where "v t1 body = Inr (body, t2)" "Q t2"
      using one[of body t1] t1(2) ArrowFunction by auto
    then show ?thesis using ArrowFunction t1 by simp
  next
    case (FunctionExpression ms ast name ps ty body)
    then obtain t1 where t1: "visitModifiers v st ms = Inr (ms, t1)" "Q t1"
      using mods[of ms st] st by auto
    obtain t2 where "v t1 body = Inr (body, t2)" "Q t2"
      using one[of body t1] t1(2) FunctionExpression by auto
    then show ?thesis using FunctionExpression t1 by simp
  next
    case (PropertyDeclaration ms name q ty init)
    then obtain t1 where t1: "visitModifiers v st ms = Inr (ms, t1)" "Q t1"
      using mods[of ms st] st by auto
    obtain t2 where "visitOptional v t1 init = Inr (init, t2)" "Q t2"
      using opt[of init t1] t1(2) PropertyDeclaration by auto
    then show ?thesis using PropertyDeclaration t1 by simp
  next
    case (MethodDeclaration ms ast name q ps ty body)
    then obtain t1 where t1: "visitModifiers v st ms = Inr (ms, t1)" "Q t1"
      using mods[of ms st] st by auto
    obtain t2 where "visitOptional v t1 body = Inr (body, t2)" "Q t2"
      using opt[of body t1] t1(2) MethodDeclaration by auto
    then show ?thesis using MethodDeclaration t1 by simp
  next
    case (ClassDeclaration ms name heritage members)
    then obtain t1 where t1: "visitModifiers v st ms = Inr (ms, t1)" "Q t1"
      using mods[of ms st] st by auto
    obtain t2 where t2: "visitNodes v t1 heritage = Inr (heritage, t2)" "Q t2"
      using many[of heritage t1] t1(2) ClassDeclaration by auto
    obtain t3 where "visitNodes v t2 members = Inr (members, t3)" "Q t3"
      using many[of members t2] t2(2) ClassDeclaration by auto
    then show ?thesis using ClassDeclaration t1 t2 by simp
  next
    case (ImportDeclaration binding specifier)
    then obtain t1 where t1: "v st binding = Inr (binding, t1)" "Q t1"
      using one[of binding st] st by auto
    obtain t2 where "v t1 specifier = Inr (specifier, t2)" "Q t2"
      using one[of specifier t1] t1(2) ImportDeclaration by auto
    then show ?thesis using ImportDeclaration t1 by simp
  next
    case (FunctionLikeNode kind children)
    then obtain t1 where "visitNodes v st children = Inr (children, t1)" "Q t1"
      using many[of children st] st by auto
    then show ?thesis using FunctionLikeNode by simp
  next
    case (OtherNode kind children)
    then obtain t1 where "visitNodes v st children = Inr (children, t1)" "Q t1"
      using many[of children st] st by auto
    then show ?thesis using OtherNode by simp
  qed (use st in simp_all)
qed

section \<open>Trees without a trigger\<close>

lemma noTrigger_modifierChildren:
  "noTrigger_modifier getText m \<Longrightarrow> c \<in> set (modifierChildren m) \<Longrightarrow> noTrigger getText c"
  by (cases m) auto

lemma noTrigger_childrenOf:
  "noTrigger getText n \<Longrightarrow> c \<in> set (childrenOf n) \<Longrightarrow> noTrigger getText c"
  by (cases n) (auto simp: list_all_iff dest: noTrigger_modifierChildren split: option.splits)

lemma find_None_list_all: "(find P xs = None) = list_all (\<lambda>x. \<not> P x) xs"
  by (induction xs) auto

lemma namesFree_modifierChildren:
  "namesFree_modifier names m \<Longrightarrow> c \<in> set (modifierChildren m) \<Longrightarrow> namesFree names c"
  by (cases m) auto

lemma namesFree_childrenOf:
  "namesFree names n \<Longrightarrow> c \<in> set (childrenOf n) \<Longrightarrow> namesFree names c"
  by (cases n) (auto simp: list_all_iff dest: namesFree_modifierChildren split: option.splits)

lemma namesFree_Nil: "namesFree [] n" "namesFree_modifier [] m"
  by (induction "[] :: string list" n and "[] :: string list" m
      rule: namesFree_namesFree_modifier.induct)
    (auto simp: list_all_iff split: option.splits)

lemma sameFlags_refl: "sameFlags st st"
  by (simp add: sameFlags_def)

lemma visitClass_noTrigger:
  "noTrigger getText n
   \<Longrightarrow> \<exists>st'. visitClass getText opts fname st n = (n, st') \<and> sameFlags st st'"
  by (cases n) (auto simp: visitClass_def sameFlags_def find_None_list_all[symmetric])

lemma visitAutoFlowCall_other:
  "\<not> isAutoFlowCall i \<Longrightarrow> visitAutoFlowCall name st i = Inr (i, st)"
  by (cases i) (auto simp: visitAutoFlowCall_def split: option.splits)

lemma visitPropertyChildren_noTrigger:
  "noTrigger getText n \<Longrightarrow>
   visitPropertyChildren st n = Inr (if isPropertyDeclaration n then Some n else None, st)"
  by (cases n)
    (auto simp: visitPropertyChildren_def visitAutoFlowCall_other
      split: option.splits)

lemma visitDecorated_noTrigger:
  "noTrigger getText n \<Longrightarrow> visitDecorated st n = Inr (Descend n st)"
  by (cases n rule: convertMethod.cases)
    (auto simp: visitDecorated_def split: option.splits)

lemma namesFree_declarationName:
  "namesFree names n \<Longrightarrow> isPropertyDeclaration n \<Longrightarrow> declarationName n \<notin> set names"
  by (cases n) auto

lemma visitNode_noTrigger:
  assumes "noTrigger getText n" and "namesFree (functionsToAddDecoratorsTo st) n"
  shows "\<exists>st'. visitNode getText opts fname st n = Inr (Descend n st') \<and> sameFlags st st'"
proof -
  obtain st1 where st1: "visitClass getText opts fname st n = (n, st1)" "sameFlags st st1"
    using visitClass_noTrigger[OF assms(1)] by blast
  then have "isPropertyDeclaration n \<Longrightarrow> declarationName n \<notin> set (functionsToAddDecoratorsTo st1)"
    using namesFree_declarationName[OF assms(2)] by (simp add: sameFlags_def)
  then show ?thesis
    using assms(1) st1
    by (auto simp: visitNode_def visitPropertyChildren_noTrigger visitDecorated_noTrigger)
qed

lemma visitor_noTrigger:
  "noTrigger getText n \<Longrightarrow> namesFree (functionsToAddDecoratorsTo st) n
   \<Longrightarrow> \<exists>st'. visitor getText opts fname st n = Inr (n, st') \<and> sameFlags st st'"
proof (induction getText opts fname st n rule: visitor.induct)
  case (1 getText opts fname st node)
  obtain st1 where st1: "visitNode getText opts fname st node = Inr (Descend node st1)"
    "sameFlags st st1"
    using visitNode_noTrigger[OF "1.prems"] by blast
  have "\<exists>st'. visitEachChild (visitor getText opts fname) st1 node = Inr (node, st')
          \<and> sameFlags st st'"
  proof (rule visitEachChild_unchanged[where Q = "sameFlags st"])
    fix c t
    assume c: "c \<in> set (childrenOf node)" and t: "sameFlags st t"
    have "noTrigger getText c" using noTrigger_childrenOf[OF "1.prems"(1) c] .
    moreover have "namesFree (functionsToAddDecoratorsTo t) c"
      using namesFree_childrenOf[OF "1.prems"(2) c] t by (simp add: sameFlags_def)
    ultimately obtain t' where "visitor getText opts fname t c = Inr (c, t')" "sameFlags t t'"
      using "1.IH"[OF st1(1) refl c] by blast
    then show "\<exists>t'. visitor getText opts fname t c = Inr (c, t') \<and> sameFlags st t'"
      using t by (auto simp: sameFlags_def)
  qed (rule st1(2))
  then show ?case using st1(1) by simp
qed

section \<open>Which errors can be thrown\<close>

lemma transformFunction_error:
  "transformFunction fn a c = Inl e \<Longrightarrow> e \<noteq> CouldNotResolvePropertyDeclaration"
  by (auto simp: transformFunction_def Let_def split: if_splits option.splits prod.splits)

lemma visitAutoFlowCall_error:
  "visitAutoFlowCall name st i = Inl e \<Longrightarrow> e \<noteq> CouldNotResolvePropertyDeclaration"
  by (auto simp: visitAutoFlowCall_def Let_def
      split: node.splits option.splits if_splits list.splits sum.splits
      dest: transformFunction_error)

lemma visitPropertyChildren_error:
  "visitPropertyChildren st n = Inl e \<Longrightarrow> e \<noteq> CouldNotResolvePropertyDeclaration"
  by (auto simp: visitPropertyChildren_def
      split: node.splits option.splits sum.splits prod.splits dest: visitAutoFlowCall_error)

lemma visitDecorated_error:
  "visitDecorated st n = Inl e \<Longrightarrow> e \<noteq> CouldNotResolvePropertyDeclaration"
  by (auto simp: visitDecorated_def Let_def
      split: node.splits option.splits if_splits sum.splits dest: transformFunction_error)

lemma visitNode_error:
  "visitNode getText opts fname st n = Inl e \<Longrightarrow> e \<noteq> CouldNotResolvePropertyDeclaration"
  by (auto simp: visitNode_def
      split: prod.splits sum.splits option.splits if_splits
      dest: visitPropertyChildren_error visitDecorated_error)

lemma visitor_error:
  "visitor getText opts fname st n = Inl e \<Longrightarrow> e \<noteq> CouldNotResolvePropertyDeclaration"
proof (induction getText opts fname st n rule: visitor.induct)
  case (1 getText opts fname st node)
  show ?case
  proof (cases "visitNode getText opts fname st node")
    case (Inl e')
    then show ?thesis using "1.prems" visitNode_error[of getText opts fname st node e'] by simp
  next
    case (Inr out)
    show ?thesis
    proof (cases out)
      case (Done n' s')
      then show ?thesis using Inr "1.prems" by simp
    next
      case (Descend n' s')
      then have "visitEachChild (visitor getText opts fname) s' n' = Inl e"
        using Inr "1.prems" by simp
      then obtain c t where "c \<in> set (childrenOf n')" "visitor getText opts fname t c = Inl e"
        using visitEachChild_Inl by blast
      then show ?thesis using "1.IH"[OF Inr Descend] by blast
    qed
  qed
qed

lemma visitSourceFile_Inl:
  assumes "visitSourceFile getText opts source = Inl e"
  shows "\<exists>c t. visitor getText opts (fileName source) t c = Inl e"
proof -
  have "\<exists>xs. visitNodes (visitor getText opts (fileName source)) initialState xs = Inl e"
    using assms
    by (simp add: visitSourceFile_def addImportMobxStatement_def Let_def
        del: visitNodes.simps split: sum.splits prod.splits if_splits) blast
  then show ?thesis using visitNodes_Inl by blast
qed

section \<open>The visitor on methods and properties\<close>

lemma isAsyncFunction_createNewFunctionBlock:
  "isAsyncFunction (createNewFunctionBlock fn aw) = isAsyncFunction fn"
  by (cases fn) simp_all

lemma functionParts_createNewFunctionBlock:
  "functionParts (createNewFunctionBlock fn aw) =
     map_option (\<lambda>(ps, body). (ps, replaceYieldAndCheckNested aw body)) (functionParts fn)"
  by (cases fn) simp_all

lemma isFunction_createNewFunctionBlock:
  "isArrowFunction (createNewFunctionBlock fn aw) = isArrowFunction fn"
  "isFunctionExpression (createNewFunctionBlock fn aw) = isFunctionExpression fn"
  by (cases fn; simp)+

lemma function_not_call:
  "isArrowFunction fn \<or> isFunctionExpression fn \<Longrightarrow> visitAutoFlowCall name st fn = Inr (fn, st)"
  by (cases fn) (simp_all add: visitAutoFlowCall_def)

lemma visitDecorated_property:
  assumes "hasDecorator mods autoFlow" and "isArrowFunction fn \<or> isFunctionExpression fn"
  shows "visitDecorated st (PropertyDeclaration mods name q ty (Some fn)) =
     (case transformFunction (createNewFunctionBlock fn awaitExpression) asyncExpression
             (className st) of
        Inl e \<Rightarrow> Inl e
      | Inr call \<Rightarrow>
          Inr (Done (PropertyDeclaration (ensureDecorators mods modelFlowExpression) name q ty
                       (Some call)) (st\<lparr>transformed := True\<rparr>)))"
  using assms by (auto simp: visitDecorated_def split: sum.splits)

lemma visitDecorated_method:
  assumes "hasDecorator mods autoFlow"
  shows "visitDecorated st (MethodDeclaration mods ast name q ps ty (Some body)) =
     visitDecorated st (PropertyDeclaration mods name q ty
        (Some (FunctionExpression mods ast
           (case name of IdentifierName n \<Rightarrow> Some n | OtherName _ \<Rightarrow> None) ps ty body)))"
  using assms by (simp add: visitDecorated_def)

lemma visitNode_method:
  "visitNode getText opts fname st (MethodDeclaration mods ast name q ps ty body) =
     visitDecorated st (MethodDeclaration mods ast name q ps ty body)"
  by (simp add: visitNode_def visitClass_def visitPropertyChildren_def)

lemma visitNode_property_function:
  assumes "isArrowFunction fn \<or> isFunctionExpression fn"
  shows "visitNode getText opts fname st (PropertyDeclaration mods name q ty (Some fn)) =
     (if nameText name \<in> set (functionsToAddDecoratorsTo st)
      then Inr (Done (PropertyDeclaration (ensureDecorators mods modelFlowExpression) name q ty
                        (Some fn)) st)
      else visitDecorated st (PropertyDeclaration mods name q ty (Some fn)))"
  using assms
  by (simp add: visitNode_def visitClass_def visitPropertyChildren_def function_not_call)

lemma ensureDecorators_no_async: "AsyncKeyword \<notin> set (ensureDecorators mods e)"
  by (simp add: ensureDecorators_filter keptModifier_def)

lemma ensureDecorators_no_autoFlow:
  "identifierText e \<noteq> Some autoFlow \<Longrightarrow> \<not> hasDecorator (ensureDecorators mods e) autoFlow"
  by (auto simp: ensureDecorators_filter keptModifier_def hasDecorator_iff)

text \<open>The definitions that evaluating the pass on a given unit unfolds.\<close>

lemmas evaluation_defs =
  visitSourceFile_def defaultOptions_def addImportMobxStatement_def initialState_def
  visitNode_def visitClass_def visitPropertyChildren_def visitAutoFlowCall_def
  visitDecorated_def transformFunction_def startsWith_def autoFlow_def modelFlow_def
  ensureDecorators_def ensureDecorators_step_def hasDecorator_def modelNameOf_def
  mobxNamespaceImport_def modelFlowExpression_def createMobxKsPropertyAccessExpression_def

section \<open>Facts about lists\<close>

lemma find_first:
  "P d \<Longrightarrow> \<forall>x \<in> set pre. \<not> P x \<Longrightarrow> find P (pre @ d # post) = Some d"
  by (induction pre) simp_all

lemma remove1_first: "d \<notin> set pre \<Longrightarrow> remove1 d (pre @ d # post) = pre @ post"
  by (induction pre) auto

lemma find_Some_iff_ex: "(find P xs \<noteq> None) = (\<exists>x \<in> set xs. P x)"
  by (induction xs) auto

section \<open>The visitor on wrapper calls and on plain declarations\<close>

lemma transformFunction_not_async:
  "\<not> isAsyncFunction fn \<Longrightarrow> transformFunction fn a c = Inl CouldNotResolveAsyncFunction"
  by (simp add: transformFunction_def)

lemma visitAutoFlowCall_function:
  assumes "startsWith callee autoFlow" and "isArrowFunction fn \<or> isFunctionExpression fn"
  shows "visitAutoFlowCall name st (CallExpression (Identifier callee) (fn # rest)) =
     (case transformFunction (createNewFunctionBlock fn awaitExpression) asyncExpression
             (className st) of
        Inl e \<Rightarrow> Inl e
      | Inr call \<Rightarrow>
          Inr (call, st\<lparr>functionsToAddDecoratorsTo :=
                         functionsToAddDecoratorsTo st @ [nameText name],
                       transformed := True\<rparr>))"
  using assms by (auto simp: visitAutoFlowCall_def split: sum.splits)

lemma visitAutoFlowCall_unsupported:
  assumes "startsWith callee autoFlow" and "\<not> isArrowFunction arg" and "\<not> isFunctionExpression arg"
  shows "visitAutoFlowCall name st (CallExpression (Identifier callee) (arg # rest)) =
     Inr (CallExpression (Identifier callee) (arg # rest),
          st\<lparr>functionsToAddDecoratorsTo := functionsToAddDecoratorsTo st @ [nameText name]\<rparr>)"
  using assms by (simp add: visitAutoFlowCall_def)

lemma visitor_unsupported_argument:
  assumes "startsWith callee autoFlow" and "\<not> isArrowFunction arg" and "\<not> isFunctionExpression arg"
  shows "visitor getText opts fname st
       (PropertyDeclaration mods name q ty
          (Some (CallExpression (Identifier callee) (arg # rest)))) =
     Inr (PropertyDeclaration (ensureDecorators mods modelFlowExpression) name q ty
            (Some (CallExpression (Identifier callee) (arg # rest))),
          st\<lparr>functionsToAddDecoratorsTo := functionsToAddDecoratorsTo st @ [nameText name]\<rparr>)"
  using assms
  by (simp add: visitNode_def visitClass_def visitPropertyChildren_def
      visitAutoFlowCall_unsupported)




section \<open>End to end: a property wrapped in \<open>autoFlow(...)\<close>\<close>


section \<open>Units without a trigger\<close>

text \<open>
  Claim C2 says that a unit with no annotation \<open>autoFlow\<close> or \<open>autoModel\<close> and no wrapper call
  is returned as it was given, without the import. The unit \<^verbatim>\<open>@autoModelled class Test {}\<close>
  has no decorator named \<open>autoModel\<close> or \<open>autoFlow\<close> and no call at all, yet the class branch
  looks for \<open>autoModel\<close> anywhere in the text of a modifier: the unit comes back with the
  import in front and the decorator replaced by \<open>@model("a/b/Test.ts")\<close>, not as it was
  given.
\<close>

theorem substring_autoModel_fires:
  "\<not> hasDecorator [Decorator (Identifier ''autoModelled'')] ''autoModel''
   \<and> \<not> hasDecorator [Decorator (Identifier ''autoModelled'')] autoFlow
   \<and> visitSourceFile modifierText defaultOptions
       (autoModelUnit (Decorator (Identifier ''autoModelled''))) =
     Inr \<lparr>fileName = ''a/b/Test.ts'',
          statements =
            [ImportDeclaration mobxNamespaceImport (StringLiteral ''mobx-keystone''),
             ClassDeclaration
               [Decorator (CallExpression modelExpression [StringLiteral ''a/b/Test.ts''])]
               (Some ''Test'') [] []]\<rparr>
   \<and> visitSourceFile modifierText defaultOptions
       (autoModelUnit (Decorator (Identifier ''autoModelled'')))
     \<noteq> Inr (autoModelUnit (Decorator (Identifier ''autoModelled'')))"
  by (simp add: autoModelUnit_def evaluation_defs modelExpression_def)

text \<open>
  With the triggers taken as the visitor tests for them (no \<open>@autoFlow\<close> decorator on a
  property or method, no class modifier whose text contains \<open>autoModel\<close>, no property
  initialised by a call of an identifier that starts with \<open>autoFlow\<close>), a unit that holds
  none anywhere is returned as it was given: the result is the input unit itself.
\<close>

lemma no_trigger_unit_unchanged:
  assumes "list_all (noTrigger getText) (statements source)"
  shows "visitSourceFile getText opts source = Inr source"
proof -
  let ?pkg = "case mobxKeystonePackage opts of None \<Rightarrow> ''mobx-keystone''
              | Some p \<Rightarrow> if p = [] then ''mobx-keystone'' else p"
  let ?stmts = "ImportDeclaration mobxNamespaceImport (StringLiteral ?pkg) # statements source"
  have "\<exists>st'. visitNodes (visitor getText opts (fileName source)) initialState ?stmts
           = Inr (?stmts, st') \<and> sameFlags initialState st'"
  proof (rule visitNodes_unchanged[where Q = "sameFlags initialState"])
    fix c t
    assume c: "c \<in> set ?stmts" and t: "sameFlags initialState t"
    have "noTrigger getText c"
      using c assms by (auto simp: list_all_iff mobxNamespaceImport_def)
    moreover have "namesFree (functionsToAddDecoratorsTo t) c"
      using t by (simp add: sameFlags_def initialState_def namesFree_Nil)
    ultimately obtain t' where
      "visitor getText opts (fileName source) t c = Inr (c, t')" "sameFlags t t'"
      using visitor_noTrigger by blast
    then show "\<exists>t'. visitor getText opts (fileName source) t c = Inr (c, t')
        \<and> sameFlags initialState t'"
      using t by (auto simp: sameFlags_def)
  qed (rule sameFlags_refl)
  then show ?thesis
    by (auto simp: visitSourceFile_def addImportMobxStatement_def sameFlags_def
        initialState_def)
qed

section \<open>Nested functions\<close>

text \<open>
  Claim C3. The suspension rewriter leaves every nested function-like node of the body as it
  is, with every await expression inside it: the nested functions of the rewritten body are
  those of the body, node for node. In the example the await of the body itself is turned
  into \<open>yield*\<close> and the await inside the nested arrow function stays.
\<close>

theorem nested_functions_untouched:
  "functionLikes (replaceYieldAndCheckNested awaitExpression body) = functionLikes body
   \<and> replaceYieldAndCheckNested awaitExpression nestedAwaitBody =
       OtherNode ''Block''
         [OtherNode ''ExpressionStatement''
            [YieldExpression True (CallExpression awaitExpression [Identifier ''a''])],
          OtherNode ''ExpressionStatement''
            [CallExpression (Identifier ''later'')
               [ArrowFunction [AsyncKeyword] [] None (AwaitExpression (Identifier ''b''))]]]"
  by (simp add: functionLikes_replaceYield awaitExpression_def
      createMobxKsPropertyAccessExpression_def mobxNamespaceImport_def nestedAwaitBody_def)

section \<open>Applying the annotation normaliser twice\<close>

text \<open>
  Claim C6 says that \<open>ensureDecorators\<close> applied twice gives what one application gives.
  The function is to add the \<open>modelFlow\<close> decorator if it is not already there, but its test
  looks for the bare identifier \<open>modelFlow\<close> while the decorator it adds is the property
  access \<open>mobxKs.modelFlow\<close>: on the list \<open>[@mobxKs.modelFlow]\<close>, which one application to
  the empty list gives, the decorator is added again.
\<close>

theorem modelFlow_decorator_added_again:
  "ensureDecorators [] modelFlowExpression = [Decorator modelFlowExpression]
   \<and> ensureDecorators [Decorator modelFlowExpression] modelFlowExpression =
       [Decorator modelFlowExpression, Decorator modelFlowExpression]
   \<and> ensureDecorators (ensureDecorators [] modelFlowExpression) modelFlowExpression
       \<noteq> ensureDecorators [] modelFlowExpression"
  by (simp add: ensureDecorators_def hasDecorator_def modelFlowExpression_def
      createMobxKsPropertyAccessExpression_def ensureDecorators_step_def autoFlow_def
      modelFlow_def)

text \<open>
  What a second application does in general: nothing when the list holds a decorator that
  is the bare identifier \<open>modelFlow\<close>, or when the expression given is itself the bare
  identifier \<open>modelFlow\<close> (or \<open>autoFlow\<close>, which the reduce drops again); in every other case
  it puts one more decorator of the expression in front.
\<close>

lemma ensureDecorators_twice:
  "ensureDecorators (ensureDecorators ms e) e =
     (if hasDecorator ms modelFlow \<or> identifierText e = Some modelFlow
         \<or> identifierText e = Some autoFlow
      then ensureDecorators ms e
      else Decorator e # ensureDecorators ms e)"
proof (cases "hasDecorator ms modelFlow")
  case True
  then show ?thesis
    by (simp add: ensureDecorators_filter hasDecorator_kept_modelFlow)
next
  case False
  then have once: "ensureDecorators ms e = Decorator e # filter keptModifier ms"
    by (simp add: ensureDecorators_filter hasDecorator_kept_modelFlow)
  show ?thesis
  proof (cases "identifierText e = Some autoFlow")
    case True
    then show ?thesis using False
      by (simp add: once ensureDecorators_filter[of "Decorator e # filter keptModifier ms"]
          keptModifier_Decorator hasDecorator_kept_modelFlow)
  next
    case notAuto: False
    then show ?thesis using False
      by (simp add: once ensureDecorators_filter[of "Decorator e # filter keptModifier ms"]
          keptModifier_Decorator hasDecorator_kept_modelFlow hasDecorator_Cons)
  qed
qed

section \<open>The error for an unresolved property declaration\<close>

text \<open>
  Claim C9. The error \<open>Could not resolve property declaration\<close> is never thrown: neither the
  visitor, on any node in any state, nor the pass over a source file ends with it.
\<close>

theorem unresolved_property_error_unreachable:
  "visitor getText opts fname st n \<noteq> Inl CouldNotResolvePropertyDeclaration
   \<and> visitSourceFile getText opts source \<noteq> Inl CouldNotResolvePropertyDeclaration"
  using visitor_error visitSourceFile_Inl by blast

section \<open>The modifiers of a rewritten declaration\<close>

text \<open>
  Claim C4, as stated: every declaration rewritten from the decorated-method or the
  decorated-property form has the target flow annotation as its first modifier. This fails
  when the declaration already has a decorator named \<open>modelFlow\<close> that is not the first: none
  is added then, and \<^verbatim>\<open>@observable @modelFlow @autoFlow fn = async () => {}\<close> comes out with
  \<open>@observable\<close> first.
\<close>

theorem flow_decorator_not_first:
  "visitSourceFile modifierText defaultOptions observableFlowUnit =
     Inr \<lparr>fileName = ''x.ts'',
          statements =
            [ImportDeclaration mobxNamespaceImport (StringLiteral ''mobx-keystone''),
             ClassDeclaration [] (Some ''Test'') []
               [PropertyDeclaration
                  [Decorator (Identifier ''observable''), Decorator (Identifier ''modelFlow'')]
                  (IdentifierName ''fn'') False None
                  (Some (CallExpression asyncExpression
                     [FunctionExpression [] True None
                        [ParameterDeclaration ''this'' (Some (TypeReferenceNode ''Test''))]
                        None (OtherNode ''Block'' [])]))]]\<rparr>"
  by (simp add: observableFlowUnit_def evaluation_defs)

text \<open>
  Claim C4, amended: whenever the visitor rewrites a method with an \<open>@autoFlow\<close> decorator
  and a body, or a property with an \<open>@autoFlow\<close> decorator whose initializer is an arrow
  function or a function expression, the result is a property of the same name whose
  modifiers hold no \<open>async\<close> keyword and no \<open>@autoFlow\<close> decorator; they are the other
  modifiers in their order, preceded by the decorator of \<open>mobxKs.modelFlow\<close> unless a
  decorator named \<open>modelFlow\<close> is already among them.
\<close>

theorem decorated_declaration_modifiers:
  assumes "hasDecorator mods autoFlow"
    and "node = MethodDeclaration mods ast name q ps ty (Some body)
         \<or> node = PropertyDeclaration mods name q ty (Some fn)
            \<and> (isArrowFunction fn \<or> isFunctionExpression fn)"
    and "visitor getText opts fname st node = Inr (node', st')"
  shows "\<exists>mods' init. node' = PropertyDeclaration mods' name q ty init
     \<and> AsyncKeyword \<notin> set mods' \<and> \<not> hasDecorator mods' autoFlow
     \<and> mods' = (if hasDecorator mods modelFlow then filter keptModifier mods
                else Decorator modelFlowExpression # filter keptModifier mods)"
proof -
  let ?mods' = "ensureDecorators mods modelFlowExpression"
  have shape: "\<exists>init. node' = PropertyDeclaration ?mods' name q ty init"
    using assms(2)
  proof
    assume m: "node = MethodDeclaration mods ast name q ps ty (Some body)"
    then show ?thesis
      using assms(1,3)
      by (auto simp: visitNode_method visitDecorated_method visitDecorated_property
          split: sum.splits)
  next
    assume "node = PropertyDeclaration mods name q ty (Some fn)
            \<and> (isArrowFunction fn \<or> isFunctionExpression fn)"
    then show ?thesis
      using assms(1,3)
      by (auto simp: visitNode_property_function visitDecorated_property
          split: sum.splits if_splits)
  qed
  moreover have "AsyncKeyword \<notin> set ?mods'" by (rule ensureDecorators_no_async)
  moreover have "\<not> hasDecorator ?mods' autoFlow"
    by (rule ensureDecorators_no_autoFlow)
      (simp add: modelFlowExpression_def createMobxKsPropertyAccessExpression_def)
  moreover have "?mods' = (if hasDecorator mods modelFlow then filter keptModifier mods
                else Decorator modelFlowExpression # filter keptModifier mods)"
    by (simp add: ensureDecorators_filter hasDecorator_kept_modelFlow)
  ultimately show ?thesis by blast
qed

text \<open>The theorem at \<^verbatim>\<open>@autoFlow async fn(input) { return await callApi(input); }\<close>.\<close>

theorem decorated_declaration_modifiers_witness:
  "hasDecorator [Decorator (Identifier ''autoFlow''), AsyncKeyword] autoFlow
   \<and> visitor modifierText defaultOptions ''x.ts'' initialState decoratedMethod =
       Inr (PropertyDeclaration [Decorator modelFlowExpression] (IdentifierName ''fn'') False
              None
              (Some (CallExpression asyncExpression
                 [FunctionExpression [] True None
                    [ParameterDeclaration ''this'' (Some (TypeReferenceNode [])),
                     ParameterDeclaration ''input'' None]
                    None
                    (replaceYieldAndCheckNested awaitExpression returnAwaitCallApi)])),
            initialState\<lparr>transformed := True\<rparr>)
   \<and> AsyncKeyword \<notin> set [Decorator modelFlowExpression]
   \<and> \<not> hasDecorator [Decorator modelFlowExpression] autoFlow"
proof -
  let ?mods = "[Decorator (Identifier ''autoFlow''), AsyncKeyword]"
  let ?out = "PropertyDeclaration [Decorator modelFlowExpression] (IdentifierName ''fn'') False
              None
              (Some (CallExpression asyncExpression
                 [FunctionExpression [] True None
                    [ParameterDeclaration ''this'' (Some (TypeReferenceNode [])),
                     ParameterDeclaration ''input'' None]
                    None
                    (replaceYieldAndCheckNested awaitExpression returnAwaitCallApi)]))"
  have h1: "hasDecorator ?mods autoFlow"
    by (simp add: hasDecorator_def autoFlow_def)
  have h2: "decoratedMethod =
      MethodDeclaration ?mods False (IdentifierName ''fn'') False
        [ParameterDeclaration ''input'' None] None (Some returnAwaitCallApi)
      \<or> decoratedMethod = PropertyDeclaration ?mods (IdentifierName ''fn'') False None (Some fn)
         \<and> (isArrowFunction fn \<or> isFunctionExpression fn)" for fn
    by (simp add: decoratedMethod_def)
  have h3: "visitor modifierText defaultOptions ''x.ts'' initialState decoratedMethod =
      Inr (?out, initialState\<lparr>transformed := True\<rparr>)"
    by (simp add: decoratedMethod_def evaluation_defs)
  from decorated_declaration_modifiers[OF h1 h2 h3]
  obtain mods' init where
    "?out = PropertyDeclaration mods' (IdentifierName ''fn'') False None init"
    "AsyncKeyword \<notin> set mods'" "\<not> hasDecorator mods' autoFlow"
    by blast
  then have "AsyncKeyword \<notin> set [Decorator modelFlowExpression]
      \<and> \<not> hasDecorator [Decorator modelFlowExpression] autoFlow"
    by simp
  then show ?thesis using h1 h3 by blast
qed

section \<open>The class identity rewriter\<close>

text \<open>
  Claim C5 says that the rewriter fires exactly when a modifier of the class is the
  annotation named \<open>autoModel\<close>, and that this annotation is the one removed. The code is to
  remove the \<open>autoModel\<close> decorator, but it picks the first modifier whose source text
  contains \<open>autoModel\<close>: in \<^verbatim>\<open>@register(autoModelThing) @autoModel class Test {}\<close> it takes
  out \<open>@register(autoModelThing)\<close> and leaves \<open>@autoModel\<close> on the class, next to the new
  \<open>@model("a/b/Test.ts")\<close>.
\<close>

theorem autoModel_left_other_decorator_removed:
  "hasDecorator
     [Decorator (CallExpression (Identifier ''register'') [Identifier ''autoModelThing'']),
      Decorator (Identifier ''autoModel'')] ''autoModel''
   \<and> visitSourceFile modifierText defaultOptions registeredModelUnit =
     Inr \<lparr>fileName = ''a/b/Test.ts'',
          statements =
            [ImportDeclaration mobxNamespaceImport (StringLiteral ''mobx-keystone''),
             ClassDeclaration
               [Decorator (Identifier ''autoModel''),
                Decorator (CallExpression modelExpression [StringLiteral ''a/b/Test.ts''])]
               (Some ''Test'') [] []]\<rparr>"
  by (simp add: registeredModelUnit_def evaluation_defs modelExpression_def)

text \<open>
  What the class branch does in general: it fires if and only if the source text of some
  modifier contains \<open>autoModel\<close>; the first such modifier is then taken out, the others keep
  their order, and \<open>@model(name)\<close> is put last, where \<open>name\<close> is the configured function
  applied to the file path, or the file path itself when no function is configured.
\<close>

lemma class_identity_rewriter:
  assumes "\<not> transformed st"
  shows "(transformed (snd (visitClass getText opts fname st
              (ClassDeclaration mods name heritage members)))
          \<longleftrightarrow> (\<exists>x \<in> set mods. includes_str (getText x) ''autoModel''))
     \<and> (\<forall>pre d post.
           mods = pre @ d # post \<and> includes_str (getText d) ''autoModel''
           \<and> (\<forall>x \<in> set pre. \<not> includes_str (getText x) ''autoModel'')
           \<longrightarrow> fst (visitClass getText opts fname st
                       (ClassDeclaration mods name heritage members)) =
                 ClassDeclaration
                   (pre @ post @
                    [Decorator (CallExpression modelExpression
                       [StringLiteral
                          (case generateModelNameFromFilename opts of
                             Some f \<Rightarrow> f fname | None \<Rightarrow> fname)])])
                   name heritage members)
     \<and> ((\<forall>x \<in> set mods. \<not> includes_str (getText x) ''autoModel'')
           \<longrightarrow> fst (visitClass getText opts fname st
                       (ClassDeclaration mods name heritage members)) =
                 ClassDeclaration mods name heritage members)"
proof (intro conjI allI impI)
  let ?P = "\<lambda>x. includes_str (getText x) ''autoModel''"
  show "transformed (snd (visitClass getText opts fname st
              (ClassDeclaration mods name heritage members)))
          \<longleftrightarrow> (\<exists>x \<in> set mods. ?P x)"
    using assms find_Some_iff_ex[of ?P mods]
    by (cases "find ?P mods") (auto simp: visitClass_def)
next
  fix pre d post
  let ?P = "\<lambda>x. includes_str (getText x) ''autoModel''"
  assume h: "mods = pre @ d # post \<and> ?P d \<and> (\<forall>x \<in> set pre. \<not> ?P x)"
  then have "find ?P mods = Some d" using find_first[of ?P d pre post] by simp
  moreover have "d \<notin> set pre" using h by blast
  then have "remove1 d mods = pre @ post" using h remove1_first by fastforce
  ultimately show "fst (visitClass getText opts fname st
      (ClassDeclaration mods name heritage members)) =
      ClassDeclaration
        (pre @ post @
         [Decorator (CallExpression modelExpression
            [StringLiteral
               (case generateModelNameFromFilename opts of
                  Some f \<Rightarrow> f fname | None \<Rightarrow> fname)])])
        name heritage members"
    by (simp add: visitClass_def modelNameOf_def)
next
  let ?P = "\<lambda>x. includes_str (getText x) ''autoModel''"
  assume "\<forall>x \<in> set mods. \<not> ?P x"
  then have "find ?P mods = None" using find_Some_iff_ex[of ?P mods] by blast
  then show "fst (visitClass getText opts fname st
      (ClassDeclaration mods name heritage members)) =
      ClassDeclaration mods name heritage members"
    by (simp add: visitClass_def)
qed

section \<open>Functions that are not async\<close>

text \<open>
  Claim C7. A function value without the async qualifier that reaches \<open>transformFunction\<close>
  makes it throw, and the error ends the visitor on each path that leads there: the
  property initialised by a wrapper call on the function, the property with an \<open>@autoFlow\<close>
  decorator initialised by the function (when its name was not recorded, in which case the
  function is never handed to \<open>transformFunction\<close>), and the method with an \<open>@autoFlow\<close>
  decorator, whose function expression has the method's modifiers and asterisk.
\<close>

theorem not_async_function_throws:
  assumes "\<not> isAsyncFunction fn" and "isArrowFunction fn \<or> isFunctionExpression fn"
  shows "transformFunction fn asyncIdentifier cls = Inl CouldNotResolveAsyncFunction
     \<and> (startsWith callee autoFlow \<longrightarrow>
          visitor getText opts fname st
            (PropertyDeclaration mods name q ty
               (Some (CallExpression (Identifier callee) (fn # rest))))
          = Inl CouldNotResolveAsyncFunction)
     \<and> (hasDecorator mods autoFlow \<and> nameText name \<notin> set (functionsToAddDecoratorsTo st) \<longrightarrow>
          visitor getText opts fname st (PropertyDeclaration mods name q ty (Some fn))
          = Inl CouldNotResolveAsyncFunction)
     \<and> (hasDecorator mods autoFlow
          \<and> fn = FunctionExpression mods ast
                 (case name of IdentifierName n \<Rightarrow> Some n | OtherName _ \<Rightarrow> None) ps ty body \<longrightarrow>
          visitor getText opts fname st (MethodDeclaration mods ast name q ps ty (Some body))
          = Inl CouldNotResolveAsyncFunction)"
proof (intro conjI impI)
  show "transformFunction fn asyncIdentifier cls = Inl CouldNotResolveAsyncFunction"
    using assms(1) by (rule transformFunction_not_async)
  have block: "transformFunction (createNewFunctionBlock fn awaitExpression) asyncExpression c
      = Inl CouldNotResolveAsyncFunction" for c
    using assms(1)
    by (simp add: transformFunction_not_async isAsyncFunction_createNewFunctionBlock)
  show "visitor getText opts fname st
      (PropertyDeclaration mods name q ty (Some (CallExpression (Identifier callee) (fn # rest))))
      = Inl CouldNotResolveAsyncFunction" if "startsWith callee autoFlow"
    using that assms(2) block
    by (simp add: visitNode_def visitClass_def visitPropertyChildren_def
        visitAutoFlowCall_function)
  show "visitor getText opts fname st (PropertyDeclaration mods name q ty (Some fn))
      = Inl CouldNotResolveAsyncFunction"
    if "hasDecorator mods autoFlow \<and> nameText name \<notin> set (functionsToAddDecoratorsTo st)"
    using that assms(2) block
    by (simp add: visitNode_property_function visitDecorated_property)
  show "visitor getText opts fname st (MethodDeclaration mods ast name q ps ty (Some body))
      = Inl CouldNotResolveAsyncFunction"
    if "hasDecorator mods autoFlow
        \<and> fn = FunctionExpression mods ast
              (case name of IdentifierName n \<Rightarrow> Some n | OtherName _ \<Rightarrow> None) ps ty body"
    using that block
    by (simp add: visitNode_method visitDecorated_method visitDecorated_property)
qed

text \<open>
  The theorem at \<^verbatim>\<open>class Test { fn = autoFlow(() => {}) }\<close>: the whole pass ends with the
  error.
\<close>

theorem not_async_function_throws_witness:
  "\<not> isAsyncFunction (ArrowFunction [] [] None (OtherNode ''Block'' []))
   \<and> startsWith ''autoFlow'' autoFlow
   \<and> transformFunction (ArrowFunction [] [] None (OtherNode ''Block'' [])) asyncExpression
        ''Test'' = Inl CouldNotResolveAsyncFunction
   \<and> visitSourceFile modifierText defaultOptions notAsyncUnit = Inl CouldNotResolveAsyncFunction"
proof -
  let ?fn = "ArrowFunction [] [] None (OtherNode ''Block'' [])"
  have h1: "\<not> isAsyncFunction ?fn" by simp
  have h2: "isArrowFunction ?fn \<or> isFunctionExpression ?fn" by simp
  have h3: "startsWith ''autoFlow'' autoFlow" by (simp add: startsWith_def autoFlow_def)
  note inst = not_async_function_throws[OF h1 h2, of asyncExpression "''Test''" "''autoFlow''"
      modifierText defaultOptions "''x.ts''"
      "initialState\<lparr>className := ''Test''\<rparr>" "[]" "IdentifierName ''fn''" False None "[]"]
  have onProperty: "visitor modifierText defaultOptions ''x.ts'' (initialState\<lparr>className := ''Test''\<rparr>)
      (PropertyDeclaration [] (IdentifierName ''fn'') False None
         (Some (CallExpression (Identifier ''autoFlow'') [?fn])))
      = Inl CouldNotResolveAsyncFunction"
    using inst h3 by blast
  have pk: "mobxKeystonePackage defaultOptions = None" by (simp add: defaultOptions_def)
  have imp: "visitor modifierText defaultOptions ''x.ts'' initialState
      (ImportDeclaration (GeneratedIdentifier ''mobxKs'') (StringLiteral ''mobx-keystone''))
      = Inr (ImportDeclaration (GeneratedIdentifier ''mobxKs'') (StringLiteral ''mobx-keystone''),
             initialState)"
    by (simp add: visitNode_def visitClass_def visitPropertyChildren_def visitDecorated_def)
  have cls: "visitor modifierText defaultOptions ''x.ts'' initialState
      (ClassDeclaration [] (Some ''Test'') []
         [PropertyDeclaration [] (IdentifierName ''fn'') False None
            (Some (CallExpression (Identifier ''autoFlow'') [?fn]))])
      = Inl CouldNotResolveAsyncFunction"
    by (subst visitor.simps)
      (simp add: onProperty visitNode_def visitClass_def visitPropertyChildren_def
        visitDecorated_def del: visitor.simps)
  have "visitSourceFile modifierText defaultOptions notAsyncUnit
      = Inl CouldNotResolveAsyncFunction"
    using pk
    by (simp add: notAsyncUnit_def visitSourceFile_def addImportMobxStatement_def
        mobxNamespaceImport_def imp cls del: visitor.simps)
  then show ?thesis using h1 h3 inst by blast
qed

section \<open>A wrapper call on something that is not a function value\<close>

text \<open>
  Claim C8 says that a property initialised by a wrapper call whose argument is neither an
  arrow function nor a function expression is left as it is. The visitor records the
  property's name before it looks at the argument, and then normalises the decorators of
  every property whose name is recorded: in
  \<^verbatim>\<open>class Test { load = autoFlow(async () => {}); fn = autoFlow(handler) }\<close> the property
  \<open>fn\<close> keeps its initializer and gets the \<open>modelFlow\<close> decorator.
\<close>

theorem unsupported_argument_gets_decorator:
  "visitSourceFile modifierText defaultOptions unsupportedArgumentUnit =
     Inr \<lparr>fileName = ''x.ts'',
          statements =
            [ImportDeclaration mobxNamespaceImport (StringLiteral ''mobx-keystone''),
             ClassDeclaration [] (Some ''Test'') []
               [PropertyDeclaration [Decorator modelFlowExpression] (IdentifierName ''load'')
                  False None
                  (Some (CallExpression asyncExpression
                     [FunctionExpression [] True None
                        [ParameterDeclaration ''this'' (Some (TypeReferenceNode ''Test''))]
                        None (OtherNode ''Block'' [])])),
                PropertyDeclaration [Decorator modelFlowExpression] (IdentifierName ''fn'')
                  False None
                  (Some (CallExpression (Identifier ''autoFlow'') [Identifier ''handler'']))]]\<rparr>"
  by (simp add: unsupportedArgumentUnit_def evaluation_defs)

section \<open>Which decorators count as \<open>@autoFlow\<close>\<close>



end
